theory Spec2Isabelle
  imports Complex_Main
begin

section \<open>Engine data shared by the prefab synchronizer and the command stack\<close>

text \<open>
  The editor code of \<^verbatim>\<open>Prefab.cpp\<close> and \<^verbatim>\<open>UndoRedo.cpp\<close> runs on top of an engine
  (entities, reflection, JSON documents, logging) whose sources are not part of the
  repository. This section fixes the data of that engine as far as the editor code
  touches it. Identifiers (\<^verbatim>\<open>btEngine::UUID\<close>, \<^verbatim>\<open>TeaAsset::AssetHandle\<close>, entity handles)
  are only copied and compared, so they are natural numbers here.
\<close>

type_synonym UUID = nat
type_synonym AssetHandle = nat

subsection \<open>Logging\<close>

text \<open>
  \<^verbatim>\<open>TEA_INFO\<close>, \<^verbatim>\<open>TEA_WARNING\<close> and \<^verbatim>\<open>TEA_ERROR\<close> take a format string and its arguments.
  A log entry keeps both. The identifier of an entity is read through the entity, so
  the argument is absent when the entity cannot be resolved.
\<close>

datatype log_arg = ArgText string | ArgUUID "UUID option" | ArgFloat real | ArgIndex nat

datatype log_entry =
    TEA_INFO string "log_arg list"
  | TEA_WARNING string "log_arg list"
  | TEA_ERROR string "log_arg list"

subsection \<open>JSON documents (rapidjson)\<close>

datatype json =
    JNull
  | JBool bool
  | JNumber real
  | JString string
  | JArray "json list"
  | JObject "(string \<times> json) list"

text \<open>
  rapidjson checks the preconditions of its accessors with \<^verbatim>\<open>RAPIDJSON_ASSERT\<close>:
  \<^verbatim>\<open>HasMember\<close> and \<^verbatim>\<open>operator[]\<close> need an object, and \<^verbatim>\<open>operator[]\<close> needs the member
  to exist. A violated precondition is an error of the model: the run stops there
  (what rapidjson does past a violated precondition when its assertions are compiled
  out is not defined, and not modelled). The other error is the use of a reference to
  a component that its entity no longer has.
\<close>

datatype error = AssertionFailed | DanglingReference

definition IsNull :: "json \<Rightarrow> bool" where
  "IsNull v = (case v of JNull \<Rightarrow> True | _ \<Rightarrow> False)"

definition IsObject :: "json \<Rightarrow> bool" where
  "IsObject v = (case v of JObject ms \<Rightarrow> True | _ \<Rightarrow> False)"

definition HasMember :: "json \<Rightarrow> string \<Rightarrow> error + bool" where
  "HasMember v name =
     (case v of
        JObject ms \<Rightarrow> Inr (map_of ms name \<noteq> None)
      | _ \<Rightarrow> Inl AssertionFailed)"

definition operator_index :: "json \<Rightarrow> string \<Rightarrow> error + json" where
  "operator_index v name =
     (case v of
        JObject ms \<Rightarrow>
          (case map_of ms name of
             Some m \<Rightarrow> Inr m
           | None \<Rightarrow> Inl AssertionFailed)
      | _ \<Rightarrow> Inl AssertionFailed)"

text \<open>
  A \<^verbatim>\<open>rapidjson::Document\<close> is a value together with the result of the last parse. A
  default-constructed document is Null. \<^verbatim>\<open>ParseStream\<close> moves the parsed root into the
  document only when the reader succeeds; on a syntax error the value stays what it
  was and the error is recorded. The content of a stream is given as the reader sees
  it: \<open>Some v\<close> for the JSON text of \<open>v\<close>, \<open>None\<close> for malformed text.
\<close>

record document =
  doc_value :: json
  doc_parseError :: bool

definition newDocument :: document where
  "newDocument = \<lparr> doc_value = JNull, doc_parseError = False \<rparr>"

definition ParseStream :: "document \<Rightarrow> json option \<Rightarrow> document" where
  "ParseStream doc content =
     (case content of
        Some parsed \<Rightarrow> doc \<lparr> doc_value := parsed, doc_parseError := False \<rparr>
      | None \<Rightarrow> doc \<lparr> doc_parseError := True \<rparr>)"

definition HasParseError :: "document \<Rightarrow> bool" where
  "HasParseError doc = doc_parseError doc"

text \<open>
  The file system as \<^verbatim>\<open>std::ifstream\<close> sees it: no entry when the file cannot be
  opened, otherwise the content of the stream.
\<close>

type_synonym filesystem = "string \<rightharpoonup> json option"

subsection \<open>Reflection (rttr)\<close>

text \<open>
  A component type is known by its name and its ordered properties; a property by its
  name, the name of its type and whether it can be written. The state of one component
  is the value of each of its properties, by property name. \<^verbatim>\<open>set_value\<close> returns
  whether it wrote.
\<close>

record rttr_property =
  prop_name :: string
  prop_type :: string
  prop_readonly :: bool

record rttr_type =
  type_name :: string
  type_properties :: "rttr_property list"

type_synonym 'v component = "string \<Rightarrow> 'v"

definition get_value :: "rttr_property \<Rightarrow> 'v component \<Rightarrow> 'v" where
  "get_value prop component = component (prop_name prop)"

definition set_value :: "rttr_property \<Rightarrow> 'v component \<Rightarrow> 'v \<Rightarrow> bool \<times> 'v component" where
  "set_value prop component v =
     (if prop_readonly prop then (False, component)
      else (True, component (prop_name prop := v)))"

subsection \<open>Entities and the registry\<close>

text \<open>
  \<^verbatim>\<open>OverrideComponent\<close> is the override ledger of a prefab instance: the handle of its
  master, the paths of the overridden properties and the names of the components the
  user added or removed locally.
\<close>

record OverrideProperty =
  path :: string

record OverrideEntry =
  componentName :: string

record OverrideComponent =
  masterPrefabHandle :: AssetHandle
  properties :: "OverrideProperty list"
  components :: "OverrideEntry list"

record vec3 =
  vec_x :: real
  vec_y :: real
  vec_z :: real

record Transform =
  position :: vec3
  rotation :: vec3
  scale :: vec3

text \<open>
  An entity has its components by name. Two of them the code also reaches through
  typed accessors: \<^verbatim>\<open>UUIDComponent\<close>, the identifier, and \<^verbatim>\<open>OverrideComponent\<close>, the
  ledger. They are fields of their own, and the operations by name reach them under
  these two names (the names the synchronizer protects from removal); every other
  component is in \<open>reflected\<close>, by its name. The transform is reached through its typed
  accessor only.
\<close>

record 'v entity_data =
  uuidComponent :: "UUID option"
  overrideComponent :: "OverrideComponent option"
  transformComponent :: "Transform option"
  reflected :: "string \<rightharpoonup> 'v component"

text \<open>
  The registry holds one slot per entity handle ever issued; the slot of a destroyed
  entity is empty and its handle is not issued again. A \<^verbatim>\<open>btEngine::Entity\<close> is a handle
  into the registry, or null. The scene also holds the source of fresh identifiers
  (the sequence of identifiers the generator will produce and how many it has
  produced) and what has been logged.
\<close>

type_synonym Entity = "nat option"

record 'v scene =
  registry :: "'v entity_data option list"
  uuidSource :: "nat \<Rightarrow> UUID"
  uuidsMinted :: nat
  logged :: "log_entry list"

text \<open>
  What the editor code takes from the engine: the path of an asset
  (\<^verbatim>\<open>AssetManager::getSourceFilePath\<close>), the files, the registered component types
  (\<^verbatim>\<open>ComponentManager::getAllComponentTypes\<close>), the deserializer of one property
  (\<^verbatim>\<open>Serialize::deserializeEachProperty\<close>, which updates the property value it is handed),
  the default state of a newly attached component, and the properties rttr registers
  for the identifier and for the ledger: what reading a property by name gives and what
  writing one makes of the component. None of these is in the repository, so each is a
  parameter.
\<close>

record 'v engine =
  getSourceFilePath :: "AssetHandle \<Rightarrow> string"
  files :: filesystem
  getAllComponentTypes :: "rttr_type list"
  deserializeEachProperty :: "json \<Rightarrow> 'v \<Rightarrow> string \<Rightarrow> 'v"
  defaultConstruct :: "string \<Rightarrow> 'v component"
  uuidGet :: "UUID \<Rightarrow> string \<Rightarrow> 'v"
  uuidSet :: "UUID \<Rightarrow> string \<Rightarrow> 'v \<Rightarrow> UUID"
  overrideGet :: "OverrideComponent \<Rightarrow> string \<Rightarrow> 'v"
  overrideSet :: "OverrideComponent \<Rightarrow> string \<Rightarrow> 'v \<Rightarrow> OverrideComponent"
  newUUIDComponent :: UUID
  newOverrideComponent :: OverrideComponent

text \<open>
  Modelled from the spec: the string-keyed component access of \<^verbatim>\<open>btEngine::Entity\<close>
  (\<^verbatim>\<open>hasComponent\<close>, \<^verbatim>\<open>getComponent\<close>, \<^verbatim>\<open>addComponent\<close>, \<^verbatim>\<open>removeComponent\<close>), whose
  source is not in the repository. \<^verbatim>\<open>getComponent\<close> on a missing component gives an
  invalid variant (\<open>None\<close>), and otherwise the component as its properties show it.
  \<^verbatim>\<open>addComponent\<close> attaches default-constructed state. An operation on one component
  leaves the other components of the entity alone.
\<close>

definition hasComponent :: "'v entity_data \<Rightarrow> string \<Rightarrow> bool" where
  "hasComponent entity typeName =
     (if typeName = ''UUIDComponent'' then uuidComponent entity \<noteq> None
      else if typeName = ''OverrideComponent'' then overrideComponent entity \<noteq> None
      else reflected entity typeName \<noteq> None)"

definition getComponent :: "'v engine \<Rightarrow> 'v entity_data \<Rightarrow> string \<Rightarrow> 'v component option" where
  "getComponent eng entity typeName =
     (if typeName = ''UUIDComponent'' then map_option (uuidGet eng) (uuidComponent entity)
      else if typeName = ''OverrideComponent''
      then map_option (overrideGet eng) (overrideComponent entity)
      else reflected entity typeName)"

definition addComponent :: "'v engine \<Rightarrow> 'v entity_data \<Rightarrow> string \<Rightarrow> 'v entity_data" where
  "addComponent eng entity typeName =
     (if typeName = ''UUIDComponent''
      then entity \<lparr> uuidComponent := Some (newUUIDComponent eng) \<rparr>
      else if typeName = ''OverrideComponent''
      then entity \<lparr> overrideComponent := Some (newOverrideComponent eng) \<rparr>
      else entity \<lparr> reflected := (reflected entity) (typeName \<mapsto> defaultConstruct eng typeName) \<rparr>)"

definition removeComponent :: "'v entity_data \<Rightarrow> string \<Rightarrow> 'v entity_data" where
  "removeComponent entity typeName =
     (if typeName = ''UUIDComponent'' then entity \<lparr> uuidComponent := None \<rparr>
      else if typeName = ''OverrideComponent'' then entity \<lparr> overrideComponent := None \<rparr>
      else entity \<lparr> reflected := (reflected entity) (typeName := None) \<rparr>)"

text \<open>
  \<^verbatim>\<open>property::set_value\<close> through the \<^verbatim>\<open>rttr::instance\<close> of the component of a given name
  of an entity: the write reaches the component the entity has, the identifier and the
  ledger included. It returns whether it wrote.
\<close>

definition component_set_value ::
  "'v engine \<Rightarrow> rttr_property \<Rightarrow> 'v entity_data \<Rightarrow> string \<Rightarrow> 'v \<Rightarrow> bool \<times> 'v entity_data" where
  "component_set_value eng prop entity typeName v =
     (if typeName = ''UUIDComponent''
      then (case uuidComponent entity of
              None \<Rightarrow> (False, entity)
            | Some uuid \<Rightarrow>
                if prop_readonly prop then (False, entity)
                else (True, entity \<lparr> uuidComponent := Some (uuidSet eng uuid (prop_name prop) v) \<rparr>))
      else if typeName = ''OverrideComponent''
      then (case overrideComponent entity of
              None \<Rightarrow> (False, entity)
            | Some ledger \<Rightarrow>
                if prop_readonly prop then (False, entity)
                else (True, entity \<lparr> overrideComponent :=
                              Some (overrideSet eng ledger (prop_name prop) v) \<rparr>))
      else (case reflected entity typeName of
              None \<Rightarrow> (False, entity)
            | Some component \<Rightarrow>
                (let written = set_value prop component v
                 in (fst written,
                     entity \<lparr> reflected := (reflected entity) (typeName \<mapsto> snd written) \<rparr>))))"

text \<open>
  \<^verbatim>\<open>auto& overrideComp = entity.getComponent<OverrideComponent>()\<close> is a reference to the
  ledger of the entity: every use of \<^verbatim>\<open>overrideComp\<close> reads the ledger the entity has at
  that moment.
\<close>

definition overrideRef :: "'v entity_data \<Rightarrow> error + OverrideComponent" where
  "overrideRef entity =
     (case overrideComponent entity of
        None \<Rightarrow> Inl DanglingReference
      | Some overrideComp \<Rightarrow> Inr overrideComp)"

subsection \<open>The scene manager\<close>

text \<open>
  Modelled from the spec: \<^verbatim>\<open>createEntity\<close>, \<^verbatim>\<open>createEntityWithUUID\<close> and \<^verbatim>\<open>destroyEntity\<close>
  of \<^verbatim>\<open>SceneManager::sceneManager\<close> and the validity test and \<^verbatim>\<open>getUUID\<close> of
  \<^verbatim>\<open>btEngine::Entity\<close>, whose sources are not in the repository. An entity is valid when
  its handle resolves to a live slot. A new entity carries its identifier and nothing
  else; \<^verbatim>\<open>createEntity\<close> takes the identifier from the generator,
  \<^verbatim>\<open>createEntityWithUUID\<close> takes the one it is given. Destroying an entity that does not
  resolve changes nothing.
\<close>

definition resolveEntity :: "'v scene \<Rightarrow> Entity \<Rightarrow> 'v entity_data option" where
  "resolveEntity sceneManager entity =
     (case entity of
        None \<Rightarrow> None
      | Some h \<Rightarrow> if h < length (registry sceneManager) then registry sceneManager ! h else None)"

definition getUUID :: "'v scene \<Rightarrow> Entity \<Rightarrow> UUID option" where
  "getUUID sceneManager entity =
     (case resolveEntity sceneManager entity of
        None \<Rightarrow> None
      | Some d \<Rightarrow> uuidComponent d)"

definition newEntity :: "UUID \<Rightarrow> 'v entity_data" where
  "newEntity uuid =
     \<lparr> uuidComponent = Some uuid, overrideComponent = None, transformComponent = None,
       reflected = Map.empty \<rparr>"

definition createEntityWithUUID :: "UUID \<Rightarrow> 'v scene \<Rightarrow> Entity \<times> 'v scene" where
  "createEntityWithUUID uuid sceneManager =
     (Some (length (registry sceneManager)),
      sceneManager \<lparr> registry := registry sceneManager @ [Some (newEntity uuid)] \<rparr>)"

definition createEntity :: "'v scene \<Rightarrow> Entity \<times> 'v scene" where
  "createEntity sceneManager =
     createEntityWithUUID (uuidSource sceneManager (uuidsMinted sceneManager))
       (sceneManager \<lparr> uuidsMinted := Suc (uuidsMinted sceneManager) \<rparr>)"

definition destroyEntity :: "Entity \<Rightarrow> 'v scene \<Rightarrow> 'v scene" where
  "destroyEntity entity sceneManager =
     (case entity of
        None \<Rightarrow> sceneManager
      | Some h \<Rightarrow> sceneManager \<lparr> registry := (registry sceneManager) [h := None] \<rparr>)"

definition tea_log :: "log_entry \<Rightarrow> 'v scene \<Rightarrow> 'v scene" where
  "tea_log entry sceneManager = sceneManager \<lparr> logged := logged sceneManager @ [entry] \<rparr>"

section \<open>Prefab.cpp\<close>

subsection \<open>loadPrefab\<close>

text \<open>Returns the document and what it logged.\<close>

definition loadPrefab :: "filesystem \<Rightarrow> string \<Rightarrow> document \<times> log_entry list" where
  "loadPrefab fs prefabPath =
     (case fs prefabPath of
        None \<Rightarrow>
          (newDocument, [TEA_INFO ''Failed to open prefab file: {0}'' [ArgText prefabPath]])
      | Some isw \<Rightarrow>
          (let prefabDoc = ParseStream newDocument isw
           in (prefabDoc,
               if HasParseError prefabDoc
               then [TEA_INFO ''Failed to parse prefab file: {0}'' [ArgText prefabPath]]
               else [])))"

subsection \<open>updateAllPrefabInstance\<close>

text \<open>The loop that looks the type name up in \<^verbatim>\<open>overrideComp.components\<close>.\<close>

primrec isLocallyAdded :: "OverrideEntry list \<Rightarrow> string \<Rightarrow> bool" where
  "isLocallyAdded [] typeName = False"
| "isLocallyAdded (c # cs) typeName =
     (if componentName c = typeName then True else isLocallyAdded cs typeName)"

text \<open>The \<^verbatim>\<open>std::find_if\<close> over \<^verbatim>\<open>overrideComp.properties\<close>: is the path overridden?\<close>

definition isOverridden :: "OverrideComponent \<Rightarrow> string \<Rightarrow> bool" where
  "isOverridden overrideComp propertyPath =
     (find (\<lambda>overrideProp. path overrideProp = propertyPath) (properties overrideComp) \<noteq> None)"

text \<open>
  The body of the loop over the properties of one component type. The state is the
  entity: the component written to and the ledger consulted are both read from it.
\<close>

definition syncProperty ::
  "'v engine \<Rightarrow> string \<Rightarrow> json \<Rightarrow> 'v entity_data \<Rightarrow> rttr_property \<Rightarrow> error + 'v entity_data" where
  "syncProperty eng typeName componentData entity prop =
     (let propName = prop_name prop;
          propertyPath = typeName @ ''/'' @ propName
      in if propName = ''Scene ID'' then Inr entity
         else if propName = ''Parent'' then Inr entity
         else (case overrideRef entity of
                 Inl err \<Rightarrow> Inl err
               | Inr overrideComp \<Rightarrow>
                   if isOverridden overrideComp propertyPath then Inr entity
                   else (case HasMember componentData propName of
                           Inl err \<Rightarrow> Inl err
                         | Inr False \<Rightarrow> Inr entity
                         | Inr True \<Rightarrow>
                             (case operator_index componentData propName of
                                Inl err \<Rightarrow> Inl err
                              | Inr propValue \<Rightarrow>
                                  (case getComponent eng entity typeName of
                                     None \<Rightarrow> Inl DanglingReference
                                   | Some component \<Rightarrow>
                                       (let propObj = get_value prop component;
                                            propObj' = deserializeEachProperty eng propValue propObj
                                                         (prop_type prop)
                                        in Inr (snd (component_set_value eng prop entity typeName
                                                       propObj'))))))))"

fun syncProperties ::
  "'v engine \<Rightarrow> string \<Rightarrow> json \<Rightarrow> 'v entity_data \<Rightarrow> rttr_property list
     \<Rightarrow> error + 'v entity_data" where
  "syncProperties eng typeName componentData entity [] = Inr entity"
| "syncProperties eng typeName componentData entity (prop # props) =
     (case syncProperty eng typeName componentData entity prop of
        Inl err \<Rightarrow> Inl err
      | Inr entity' \<Rightarrow> syncProperties eng typeName componentData entity' props)"

text \<open>
  The last block of the loop over the component types: when the master has the
  component, write its values into the instance's component. The state is the entity
  and the entries logged so far.
\<close>

definition syncComponentData ::
  "'v engine \<Rightarrow> json \<Rightarrow> rttr_type \<Rightarrow> 'v entity_data \<times> log_entry list
     \<Rightarrow> error + ('v entity_data \<times> log_entry list)" where
  "syncComponentData eng entityData componentType st =
     (let typeName = type_name componentType; entity = fst st; out = snd st
      in case HasMember entityData typeName of
           Inl err \<Rightarrow> Inl err
         | Inr False \<Rightarrow> Inr (entity, out)
         | Inr True \<Rightarrow>
             (case operator_index entityData typeName of
                Inl err \<Rightarrow> Inl err
              | Inr componentData \<Rightarrow>
                  (case getComponent eng entity typeName of
                     None \<Rightarrow>
                       Inr (entity,
                            out @ [TEA_WARNING ''Entity does not have component {0}. Skipping.''
                                     [ArgText typeName]])
                   | Some componentVar \<Rightarrow>
                       (case syncProperties eng typeName componentData entity
                               (type_properties componentType) of
                          Inl err \<Rightarrow> Inl err
                        | Inr entity' \<Rightarrow> Inr (entity', out)))))"

text \<open>The body of the loop over the registered component types.\<close>

definition syncComponentType ::
  "'v engine \<Rightarrow> json \<Rightarrow> 'v entity_data \<times> log_entry list \<Rightarrow> rttr_type
     \<Rightarrow> error + ('v entity_data \<times> log_entry list)" where
  "syncComponentType eng entityData st componentType =
     (let typeName = type_name componentType; entity = fst st; out = snd st
      in if typeName = ''Scene ID'' then Inr (entity, out)
         else (case HasMember entityData typeName of
                 Inl err \<Rightarrow> Inl err
               | Inr existsInPrefabAsset \<Rightarrow>
                   (case overrideRef entity of
                      Inl err \<Rightarrow> Inl err
                    | Inr overrideComp \<Rightarrow>
                        (let existsInPrefabInstance = hasComponent entity typeName;
                             locallyAdded = isLocallyAdded (components overrideComp) typeName
                         in if existsInPrefabAsset \<and> \<not> existsInPrefabInstance \<and> \<not> locallyAdded
                            then (if typeName = ''Child'' \<or> typeName = ''Parent''
                                  then Inr (entity, out)
                                  else syncComponentData eng entityData componentType
                                         (addComponent eng entity typeName, out))
                            else if \<not> existsInPrefabAsset \<and> existsInPrefabInstance
                            then (if typeName = ''UUIDComponent'' \<or> typeName = ''OverrideComponent''
                                  then Inr (entity, out)
                                  else syncComponentData eng entityData componentType
                                         (if \<not> locallyAdded then removeComponent entity typeName
                                          else entity, out))
                            else syncComponentData eng entityData componentType (entity, out)))))"

fun syncComponentTypes ::
  "'v engine \<Rightarrow> json \<Rightarrow> 'v entity_data \<times> log_entry list \<Rightarrow> rttr_type list
     \<Rightarrow> error + ('v entity_data \<times> log_entry list)" where
  "syncComponentTypes eng entityData st [] = Inr st"
| "syncComponentTypes eng entityData st (componentType # componentTypes) =
     (case syncComponentType eng entityData st componentType of
        Inl err \<Rightarrow> Inl err
      | Inr st' \<Rightarrow> syncComponentTypes eng entityData st' componentTypes)"

text \<open>The body of the loop over the view, for one entity of the view.\<close>

definition syncInstance ::
  "'v engine \<Rightarrow> AssetHandle \<Rightarrow> string \<Rightarrow> document \<Rightarrow> 'v entity_data \<times> log_entry list
     \<Rightarrow> error + ('v entity_data \<times> log_entry list)" where
  "syncInstance eng handle prefabPath prefabDoc st =
     (case overrideRef (fst st) of
        Inl err \<Rightarrow> Inl err
      | Inr overrideComp \<Rightarrow>
          if masterPrefabHandle overrideComp = handle
          then (case operator_index (doc_value prefabDoc) ''Entity'' of
                  Inl err \<Rightarrow> Inl err
                | Inr entityData \<Rightarrow>
                    if \<not> IsObject entityData then Inr st
                    else syncComponentTypes eng entityData st (getAllComponentTypes eng))
          else Inr (fst st,
                    snd st @ [TEA_INFO
                      ''Entity is not a prefab instance of {0}, so skip and check the next entity''
                      [ArgText prefabPath]]))"

text \<open>
  The loop over \<^verbatim>\<open>registry->view<UUIDComponent, OverrideComponent>()\<close>: the slots are
  visited in order, and a slot is in the view when its entity has both components.
\<close>

fun syncView ::
  "'v engine \<Rightarrow> AssetHandle \<Rightarrow> string \<Rightarrow> document \<Rightarrow> log_entry list
     \<Rightarrow> 'v entity_data option list \<Rightarrow> error + ('v entity_data option list \<times> log_entry list)" where
  "syncView eng handle prefabPath prefabDoc out [] = Inr ([], out)"
| "syncView eng handle prefabPath prefabDoc out (slot # slots) =
     (case slot of
        None \<Rightarrow>
          (case syncView eng handle prefabPath prefabDoc out slots of
             Inl err \<Rightarrow> Inl err
           | Inr (slots', out') \<Rightarrow> Inr (None # slots', out'))
      | Some entity \<Rightarrow>
          (case (uuidComponent entity, overrideComponent entity) of
             (Some uuid, Some overrideComp) \<Rightarrow>
               (case syncInstance eng handle prefabPath prefabDoc (entity, out) of
                  Inl err \<Rightarrow> Inl err
                | Inr (entity', out1) \<Rightarrow>
                    (case syncView eng handle prefabPath prefabDoc out1 slots of
                       Inl err \<Rightarrow> Inl err
                     | Inr (slots', out') \<Rightarrow> Inr (Some entity' # slots', out')))
           | _ \<Rightarrow>
               (case syncView eng handle prefabPath prefabDoc out slots of
                  Inl err \<Rightarrow> Inl err
                | Inr (slots', out') \<Rightarrow> Inr (Some entity # slots', out'))))"

definition updateAllPrefabInstance ::
  "'v engine \<Rightarrow> AssetHandle \<Rightarrow> 'v scene \<Rightarrow> error + 'v scene" where
  "updateAllPrefabInstance eng handle sceneManager =
     (let prefabPath = getSourceFilePath eng handle;
          loaded = loadPrefab (files eng) prefabPath;
          prefabDoc = fst loaded;
          out = logged sceneManager @ snd loaded
      in if IsNull (doc_value prefabDoc) then Inr (sceneManager \<lparr> logged := out \<rparr>)
         else (case syncView eng handle prefabPath prefabDoc out (registry sceneManager) of
                 Inl err \<Rightarrow> Inl err
               | Inr (slots', out') \<Rightarrow>
                   Inr (sceneManager \<lparr> registry := slots', logged := out' \<rparr>)))"

section \<open>UndoRedo.cpp\<close>

subsection \<open>Values and instances (rttr)\<close>

text \<open>
  An \<^verbatim>\<open>rttr::variant\<close> as far as \<^verbatim>\<open>ChangeMaterialInstanceCommand\<close> looks into it: a
  sequential container of identifiers (the material handles of a component), or any
  other value, which has no sequential view. \<^verbatim>\<open>variant_sequential_view::set_value\<close>
  writes one element and fails outside the container.
\<close>

datatype 'a variant = Sequential "UUID list" | Plain 'a

definition create_sequential_view :: "'a variant \<Rightarrow> UUID list option" where
  "create_sequential_view v = (case v of Sequential elems \<Rightarrow> Some elems | Plain other \<Rightarrow> None)"

definition seq_set_value :: "UUID list \<Rightarrow> nat \<Rightarrow> UUID \<Rightarrow> UUID list option" where
  "seq_set_value elems index val =
     (if index < length elems then Some (elems [index := val]) else None)"

text \<open>
  An \<^verbatim>\<open>rttr::instance\<close> of a component: the handle of the entity and the name of the
  component. \<^verbatim>\<open>property::set_value\<close> through an instance fails when the instance does
  not resolve to a component, or when the property cannot be written.
\<close>

type_synonym component_instance = "nat \<times> string"

definition instance_set_value ::
  "rttr_property \<Rightarrow> component_instance \<Rightarrow> 'v \<Rightarrow> 'v scene \<Rightarrow> bool \<times> 'v scene" where
  "instance_set_value prop inst v sceneManager =
     (case resolveEntity sceneManager (Some (fst inst)) of
        None \<Rightarrow> (False, sceneManager)
      | Some d \<Rightarrow>
          (case reflected d (snd inst) of
             None \<Rightarrow> (False, sceneManager)
           | Some component \<Rightarrow>
               (let written = set_value prop component v
                in if fst written
                   then (True,
                         sceneManager \<lparr> registry := (registry sceneManager)
                           [fst inst := Some (d \<lparr> reflected := (reflected d) (snd inst \<mapsto> snd written) \<rparr>)] \<rparr>)
                   else (False, sceneManager))))"

subsection \<open>The commands\<close>

text \<open>
  The classes derived from \<^verbatim>\<open>Command\<close>, each with its member variables in the order of
  the header: \<^verbatim>\<open>m_entity\<close>, \<^verbatim>\<open>m_uuid\<close>; \<^verbatim>\<open>m_entity\<close>, the old position, rotation and scale,
  the new position, rotation and scale; \<^verbatim>\<open>m_compInst\<close>, \<^verbatim>\<open>m_prop\<close>, \<^verbatim>\<open>m_propValue\<close>,
  \<^verbatim>\<open>m_index\<close>, \<^verbatim>\<open>m_oldValue\<close>, \<^verbatim>\<open>m_newValue\<close>. \<^verbatim>\<open>m_sceneManager\<close> is the scene the
  functions are applied to. A member function returns the command, whose members it
  may have changed, and the scene.
\<close>

datatype 'a command =
    CreateEntityCommand Entity UUID
  | TransformEntityCommand Entity vec3 vec3 vec3 vec3 vec3 vec3
  | ChangeMaterialInstanceCommand component_instance rttr_property "'a variant" nat UUID UUID

definition CreateEntityCommand_execute ::
  "Entity \<Rightarrow> UUID \<Rightarrow> 'a variant scene \<Rightarrow> 'a command \<times> 'a variant scene" where
  "CreateEntityCommand_execute m_entity m_uuid sceneManager =
     (let created = createEntity sceneManager;
          m_entity' = fst created;
          m_uuid' = (case getUUID (snd created) m_entity' of Some u \<Rightarrow> u | None \<Rightarrow> m_uuid)
      in (CreateEntityCommand m_entity' m_uuid',
          tea_log (TEA_INFO ''[CreateEntityCommand] execute() called.\<newline>Created entity with UUID: {}''
                     [ArgUUID (Some m_uuid')])
            (snd created)))"

definition CreateEntityCommand_undo ::
  "Entity \<Rightarrow> UUID \<Rightarrow> 'a variant scene \<Rightarrow> 'a command \<times> 'a variant scene" where
  "CreateEntityCommand_undo m_entity m_uuid sceneManager =
     (CreateEntityCommand m_entity m_uuid,
      tea_log (TEA_INFO ''[CreateEntityCommand] undo() called.\<newline>Destroyed entity with UUID: {}''
                 [ArgUUID (Some m_uuid)])
        (destroyEntity m_entity sceneManager))"

definition CreateEntityCommand_redo ::
  "Entity \<Rightarrow> UUID \<Rightarrow> 'a variant scene \<Rightarrow> 'a command \<times> 'a variant scene" where
  "CreateEntityCommand_redo m_entity m_uuid sceneManager =
     (let created = createEntityWithUUID m_uuid sceneManager
      in (CreateEntityCommand (fst created) m_uuid,
          tea_log (TEA_INFO ''[CreateEntityCommand] redo() called.\<newline>Recreated entity with UUID: {}''
                     [ArgUUID (Some m_uuid)])
            (snd created)))"

definition applyTransform :: "Entity \<Rightarrow> vec3 \<Rightarrow> vec3 \<Rightarrow> vec3 \<Rightarrow> 'v scene \<Rightarrow> 'v scene" where
  "applyTransform m_entity pos rot scl sceneManager =
     (case m_entity of
        None \<Rightarrow> sceneManager
      | Some h \<Rightarrow>
          (case resolveEntity sceneManager m_entity of
             None \<Rightarrow> sceneManager
           | Some d \<Rightarrow>
               (case transformComponent d of
                  None \<Rightarrow> sceneManager
                | Some transform \<Rightarrow>
                    sceneManager \<lparr> registry := (registry sceneManager)
                      [h := Some (d \<lparr> transformComponent :=
                         Some (transform \<lparr> position := pos, rotation := rot, scale := scl \<rparr>) \<rparr>)] \<rparr>)))"

definition transform_log_args :: "'v scene \<Rightarrow> Entity \<Rightarrow> vec3 \<Rightarrow> vec3 \<Rightarrow> vec3 \<Rightarrow> log_arg list" where
  "transform_log_args sceneManager m_entity pos rot scl =
     [ArgUUID (getUUID sceneManager m_entity),
      ArgFloat (vec_x pos), ArgFloat (vec_y pos), ArgFloat (vec_z pos),
      ArgFloat (vec_x rot), ArgFloat (vec_y rot), ArgFloat (vec_z rot),
      ArgFloat (vec_x scl), ArgFloat (vec_y scl), ArgFloat (vec_z scl)]"

definition TransformEntityCommand_execute ::
  "Entity \<Rightarrow> vec3 \<Rightarrow> vec3 \<Rightarrow> vec3 \<Rightarrow> vec3 \<Rightarrow> vec3 \<Rightarrow> vec3 \<Rightarrow> 'a variant scene
     \<Rightarrow> 'a command \<times> 'a variant scene" where
  "TransformEntityCommand_execute m_entity oldPos oldRot oldScale newPos newRot newScale sceneManager =
     (let applied = applyTransform m_entity newPos newRot newScale sceneManager
      in (TransformEntityCommand m_entity oldPos oldRot oldScale newPos newRot newScale,
          tea_log (TEA_INFO ''[TransformEntityCommand] execute() called.\<newline>Entity UUID: {}\<newline>Applied New Transform:\<newline>   Position: ({}, {}, {})\<newline>   Rotation: ({}, {}, {})\<newline>   Scale:    ({}, {}, {})''
                     (transform_log_args applied m_entity newPos newRot newScale))
            applied))"

definition TransformEntityCommand_undo ::
  "Entity \<Rightarrow> vec3 \<Rightarrow> vec3 \<Rightarrow> vec3 \<Rightarrow> vec3 \<Rightarrow> vec3 \<Rightarrow> vec3 \<Rightarrow> 'a variant scene
     \<Rightarrow> 'a command \<times> 'a variant scene" where
  "TransformEntityCommand_undo m_entity oldPos oldRot oldScale newPos newRot newScale sceneManager =
     (let applied = applyTransform m_entity oldPos oldRot oldScale sceneManager
      in (TransformEntityCommand m_entity oldPos oldRot oldScale newPos newRot newScale,
          tea_log (TEA_INFO ''[TransformEntityCommand] undo() called.\<newline>Entity UUID: {}\<newline>Reverted to Old Transform:\<newline>   Position: ({}, {}, {})\<newline>   Rotation: ({}, {}, {})\<newline>   Scale:    ({}, {}, {})''
                     (transform_log_args applied m_entity oldPos oldRot oldScale))
            applied))"

definition TransformEntityCommand_redo ::
  "Entity \<Rightarrow> vec3 \<Rightarrow> vec3 \<Rightarrow> vec3 \<Rightarrow> vec3 \<Rightarrow> vec3 \<Rightarrow> vec3 \<Rightarrow> 'a variant scene
     \<Rightarrow> 'a command \<times> 'a variant scene" where
  "TransformEntityCommand_redo m_entity oldPos oldRot oldScale newPos newRot newScale sceneManager =
     (let applied = applyTransform m_entity newPos newRot newScale sceneManager
      in (TransformEntityCommand m_entity oldPos oldRot oldScale newPos newRot newScale,
          tea_log (TEA_INFO ''[TransformEntityCommand] redo() called.\<newline>Entity UUID: {}\<newline>Reapplied New Transform:\<newline>   Position: ({}, {}, {})\<newline>   Rotation: ({}, {}, {})\<newline>   Scale:    ({}, {}, {})''
                     (transform_log_args applied m_entity newPos newRot newScale))
            applied))"

text \<open>
  \<^verbatim>\<open>applyValue\<close> writes into the command's own copy of the container first and then
  hands the whole container to the property. It returns the new \<^verbatim>\<open>m_propValue\<close>.
\<close>

definition applyValue ::
  "component_instance \<Rightarrow> rttr_property \<Rightarrow> 'a variant \<Rightarrow> nat \<Rightarrow> UUID \<Rightarrow> 'a variant scene
     \<Rightarrow> 'a variant \<times> 'a variant scene" where
  "applyValue m_compInst m_prop m_propValue m_index val sceneManager =
     (case create_sequential_view m_propValue of
        None \<Rightarrow>
          (m_propValue,
           tea_log (TEA_ERROR ''Failed to create sequential_view on propValue'' []) sceneManager)
      | Some seqView \<Rightarrow>
          (case seq_set_value seqView m_index val of
             None \<Rightarrow>
               (m_propValue,
                tea_log (TEA_ERROR ''Failed to set material handle in propValue's array at index {}''
                           [ArgIndex m_index])
                  sceneManager)
           | Some seqView' \<Rightarrow>
               (let written = instance_set_value m_prop m_compInst (Sequential seqView') sceneManager
                in (Sequential seqView',
                    if \<not> fst written
                    then tea_log (TEA_ERROR ''Failed to set material property on component instance'' [])
                           (snd written)
                    else snd written))))"

definition ChangeMaterialInstanceCommand_execute ::
  "component_instance \<Rightarrow> rttr_property \<Rightarrow> 'a variant \<Rightarrow> nat \<Rightarrow> UUID \<Rightarrow> UUID \<Rightarrow> 'a variant scene
     \<Rightarrow> 'a command \<times> 'a variant scene" where
  "ChangeMaterialInstanceCommand_execute m_compInst m_prop m_propValue m_index m_oldValue m_newValue
       sceneManager =
     (let applied = applyValue m_compInst m_prop m_propValue m_index m_newValue sceneManager
      in (ChangeMaterialInstanceCommand m_compInst m_prop (fst applied) m_index m_oldValue m_newValue,
          tea_log (TEA_INFO ''[ChangeMaterialInstanceCommand] execute(): Applied new material UUID: {}''
                     [ArgUUID (Some m_newValue)])
            (snd applied)))"

definition ChangeMaterialInstanceCommand_undo ::
  "component_instance \<Rightarrow> rttr_property \<Rightarrow> 'a variant \<Rightarrow> nat \<Rightarrow> UUID \<Rightarrow> UUID \<Rightarrow> 'a variant scene
     \<Rightarrow> 'a command \<times> 'a variant scene" where
  "ChangeMaterialInstanceCommand_undo m_compInst m_prop m_propValue m_index m_oldValue m_newValue
       sceneManager =
     (let applied = applyValue m_compInst m_prop m_propValue m_index m_oldValue sceneManager
      in (ChangeMaterialInstanceCommand m_compInst m_prop (fst applied) m_index m_oldValue m_newValue,
          tea_log (TEA_INFO ''[ChangeMaterialInstanceCommand] undo(): Reverted to old material UUID: {}''
                     [ArgUUID (Some m_oldValue)])
            (snd applied)))"

definition ChangeMaterialInstanceCommand_redo ::
  "component_instance \<Rightarrow> rttr_property \<Rightarrow> 'a variant \<Rightarrow> nat \<Rightarrow> UUID \<Rightarrow> UUID \<Rightarrow> 'a variant scene
     \<Rightarrow> 'a command \<times> 'a variant scene" where
  "ChangeMaterialInstanceCommand_redo m_compInst m_prop m_propValue m_index m_oldValue m_newValue
       sceneManager =
     (let applied = applyValue m_compInst m_prop m_propValue m_index m_newValue sceneManager
      in (ChangeMaterialInstanceCommand m_compInst m_prop (fst applied) m_index m_oldValue m_newValue,
          tea_log (TEA_INFO ''[ChangeMaterialInstanceCommand] redo(): Reapplied new material UUID: {}''
                     [ArgUUID (Some m_newValue)])
            (snd applied)))"

text \<open>The virtual functions of \<^verbatim>\<open>Command\<close>, dispatched on the class of the command.\<close>

fun Command_execute :: "'a command \<Rightarrow> 'a variant scene \<Rightarrow> 'a command \<times> 'a variant scene" where
  "Command_execute (CreateEntityCommand e u) s = CreateEntityCommand_execute e u s"
| "Command_execute (TransformEntityCommand e oldPos oldRot oldScale newPos newRot newScale) s =
     TransformEntityCommand_execute e oldPos oldRot oldScale newPos newRot newScale s"
| "Command_execute (ChangeMaterialInstanceCommand ci p pv i ov nv) s =
     ChangeMaterialInstanceCommand_execute ci p pv i ov nv s"

fun Command_undo :: "'a command \<Rightarrow> 'a variant scene \<Rightarrow> 'a command \<times> 'a variant scene" where
  "Command_undo (CreateEntityCommand e u) s = CreateEntityCommand_undo e u s"
| "Command_undo (TransformEntityCommand e oldPos oldRot oldScale newPos newRot newScale) s =
     TransformEntityCommand_undo e oldPos oldRot oldScale newPos newRot newScale s"
| "Command_undo (ChangeMaterialInstanceCommand ci p pv i ov nv) s =
     ChangeMaterialInstanceCommand_undo ci p pv i ov nv s"

fun Command_redo :: "'a command \<Rightarrow> 'a variant scene \<Rightarrow> 'a command \<times> 'a variant scene" where
  "Command_redo (CreateEntityCommand e u) s = CreateEntityCommand_redo e u s"
| "Command_redo (TransformEntityCommand e oldPos oldRot oldScale newPos newRot newScale) s =
     TransformEntityCommand_redo e oldPos oldRot oldScale newPos newRot newScale s"
| "Command_redo (ChangeMaterialInstanceCommand ci p pv i ov nv) s =
     ChangeMaterialInstanceCommand_redo ci p pv i ov nv s"

subsection \<open>CommandManager\<close>

text \<open>
  The two \<^verbatim>\<open>std::stack\<close>s, top first. The member functions take and return the manager
  together with the scene its commands act on.
\<close>

record 'a CommandManager =
  undoStack :: "'a command list"
  redoStack :: "'a command list"

text \<open>The loop \<^verbatim>\<open>while (!redoStack.empty()) redoStack.pop();\<close>\<close>

fun popAll :: "'c list \<Rightarrow> 'c list" where
  "popAll [] = []"
| "popAll (c # cs) = popAll cs"

definition executeCommand ::
  "'a command \<Rightarrow> 'a CommandManager \<times> 'a variant scene \<Rightarrow> 'a CommandManager \<times> 'a variant scene" where
  "executeCommand cmd st =
     (let executed = Command_execute cmd (snd st);
          mgr = (fst st) \<lparr> undoStack := fst executed # undoStack (fst st) \<rparr>
      in (mgr \<lparr> redoStack := popAll (redoStack mgr) \<rparr>, snd executed))"

definition undo ::
  "'a CommandManager \<times> 'a variant scene \<Rightarrow> 'a CommandManager \<times> 'a variant scene" where
  "undo st =
     (case undoStack (fst st) of
        [] \<Rightarrow> st
      | cmd # rest \<Rightarrow>
          (let undone = Command_undo cmd (snd st)
           in ((fst st) \<lparr> undoStack := rest, redoStack := fst undone # redoStack (fst st) \<rparr>,
               snd undone)))"

definition redo ::
  "'a CommandManager \<times> 'a variant scene \<Rightarrow> 'a CommandManager \<times> 'a variant scene" where
  "redo st =
     (case redoStack (fst st) of
        [] \<Rightarrow> st
      | cmd # rest \<Rightarrow>
          (let redone = Command_redo cmd (snd st)
           in ((fst st) \<lparr> redoStack := rest, undoStack := fst redone # undoStack (fst st) \<rparr>,
               snd redone)))"

section \<open>Notions used to state the properties\<close>

subsection \<open>Reading a scene and a master document\<close>

text \<open>
  The notions the properties of the synchronizer are stated with. The component
  entries of the master document of a handle: the members of the object \<^verbatim>\<open>"Entity"\<close> of
  the document, when the file opens, parses and has that shape. The state of the
  reflected component of a given name on the entity of a slot, and the value of one of
  its properties.
\<close>

definition masterEntity :: "'v engine \<Rightarrow> AssetHandle \<Rightarrow> (string \<times> json) list option" where
  "masterEntity eng handle =
     (case files eng (getSourceFilePath eng handle) of
        Some (Some (JObject members)) \<Rightarrow>
          (case map_of members ''Entity'' of
             Some (JObject entityMembers) \<Rightarrow> Some entityMembers
           | _ \<Rightarrow> None)
      | _ \<Rightarrow> None)"

definition componentAt :: "'v scene \<Rightarrow> nat \<Rightarrow> string \<Rightarrow> 'v component option" where
  "componentAt sceneManager i typeName =
     (case resolveEntity sceneManager (Some i) of
        None \<Rightarrow> None
      | Some d \<Rightarrow> reflected d typeName)"


subsection \<open>What a command leaves observable\<close>

text \<open>
  The entities of a scene that are alive, in the order of their slots. Two scenes with
  the same live entities differ only in their handles, in the state of the identifier
  generator and in the log.
\<close>

definition liveEntities :: "'v scene \<Rightarrow> 'v entity_data list" where
  "liveEntities sceneManager = List.map_filter (\<lambda>slot. slot) (registry sceneManager)"

text \<open>
  A command is handed the old state of its target by whoever constructs it. The old
  state a command stores is current in a scene when the target holds it there: the
  transform of the entity equals the stored old position, rotation and scale; the
  property holds the stored container with the old identifier at the index. A command
  that cannot reach its target stores nothing it could get wrong.
\<close>

fun storedStateCurrent :: "'a command \<Rightarrow> 'a variant scene \<Rightarrow> bool" where
  "storedStateCurrent (CreateEntityCommand e u) s = True"
| "storedStateCurrent (TransformEntityCommand e oldPos oldRot oldScale newPos newRot newScale) s =
     (case resolveEntity s e of
        None \<Rightarrow> True
      | Some d \<Rightarrow>
          (case transformComponent d of
             None \<Rightarrow> True
           | Some transform \<Rightarrow>
               position transform = oldPos \<and> rotation transform = oldRot \<and> scale transform = oldScale))"
| "storedStateCurrent (ChangeMaterialInstanceCommand ci p pv i ov nv) s =
     (case create_sequential_view pv of
        None \<Rightarrow> True
      | Some elems \<Rightarrow>
          (case componentAt s (fst ci) (snd ci) of
             None \<Rightarrow> True
           | Some component \<Rightarrow>
               \<not> i < length elems \<or> prop_readonly p
               \<or> component (prop_name p) = Sequential (elems [i := ov])))"

section \<open>An example scene\<close>

text \<open>
  The scenario of the specification, extended. The master prefab of handle 1 defines a
  transform at the origin, a tag named Enemy and a hierarchy link. Instance X (slot 0)
  has overridden the position of its transform, has no tag, has a light the master does
  not have, and an audio source the user added locally. Slot 1 held an entity that was
  destroyed, slot 2 holds an instance of the prefab of handle 2, whose file is
  malformed, and slot 3 an entity that is no prefab instance. Reflected values are
  JSON values here, and deserializing a value gives the value.
\<close>

definition example_types :: "rttr_type list" where
  "example_types =
     [\<lparr> type_name = ''Transform'', type_properties =
          [\<lparr> prop_name = ''position'', prop_type = ''vec3'', prop_readonly = False \<rparr>,
           \<lparr> prop_name = ''rotation'', prop_type = ''vec3'', prop_readonly = False \<rparr>] \<rparr>,
      \<lparr> type_name = ''Tag'', type_properties =
          [\<lparr> prop_name = ''name'', prop_type = ''string'', prop_readonly = False \<rparr>] \<rparr>,
      \<lparr> type_name = ''Child'', type_properties =
          [\<lparr> prop_name = ''Parent'', prop_type = ''UUID'', prop_readonly = False \<rparr>] \<rparr>,
      \<lparr> type_name = ''Light'', type_properties =
          [\<lparr> prop_name = ''intensity'', prop_type = ''float'', prop_readonly = False \<rparr>] \<rparr>,
      \<lparr> type_name = ''Audio'', type_properties =
          [\<lparr> prop_name = ''clip'', prop_type = ''string'', prop_readonly = False \<rparr>] \<rparr>]"

definition example_master :: json where
  "example_master =
     JObject [(''Entity'', JObject
       [(''Transform'', JObject
           [(''position'', JArray [JNumber 0, JNumber 0, JNumber 0]),
            (''rotation'', JArray [JNumber 0, JNumber 90, JNumber 0])]),
        (''Tag'', JObject [(''name'', JString ''Enemy'')]),
        (''Child'', JObject [(''Parent'', JNumber 7)])])]"

text \<open>
  In the example rttr registers the ledger with two properties, \<^verbatim>\<open>properties\<close> and
  \<^verbatim>\<open>components\<close>, each read and written as an array of strings, and the identifier with
  none that can be written.
\<close>

fun example_strings :: "json \<Rightarrow> string list" where
  "example_strings (JArray []) = []"
| "example_strings (JArray (JString s # vs)) = s # example_strings (JArray vs)"
| "example_strings (JArray (v # vs)) = example_strings (JArray vs)"
| "example_strings v = []"

definition example_overrideGet :: "OverrideComponent \<Rightarrow> string \<Rightarrow> json" where
  "example_overrideGet ledger propName =
     (if propName = ''properties''
      then JArray (map (\<lambda>overrideProp. JString (path overrideProp)) (properties ledger))
      else if propName = ''components''
      then JArray (map (\<lambda>entry. JString (componentName entry)) (components ledger))
      else JNull)"

definition example_overrideSet :: "OverrideComponent \<Rightarrow> string \<Rightarrow> json \<Rightarrow> OverrideComponent" where
  "example_overrideSet ledger propName v =
     (if propName = ''properties''
      then ledger \<lparr> properties := map (\<lambda>s. \<lparr> path = s \<rparr>) (example_strings v) \<rparr>
      else if propName = ''components''
      then ledger \<lparr> components := map (\<lambda>s. \<lparr> componentName = s \<rparr>) (example_strings v) \<rparr>
      else ledger)"

definition example_engine :: "json engine" where
  "example_engine =
     \<lparr> getSourceFilePath =
         (\<lambda>h. if h = 1 then ''enemy.prefab'' else if h = 2 then ''broken.prefab'' else ''missing.prefab''),
       files = [''enemy.prefab'' \<mapsto> Some example_master, ''broken.prefab'' \<mapsto> None],
       getAllComponentTypes = example_types,
       deserializeEachProperty = (\<lambda>propValue propObj propType. propValue),
       defaultConstruct = (\<lambda>typeName propName. JNull),
       uuidGet = (\<lambda>uuid propName. JNull),
       uuidSet = (\<lambda>uuid propName v. uuid),
       overrideGet = example_overrideGet,
       overrideSet = example_overrideSet,
       newUUIDComponent = 0,
       newOverrideComponent = \<lparr> masterPrefabHandle = 0, properties = [], components = [] \<rparr> \<rparr>"

definition example_ledger :: OverrideComponent where
  "example_ledger =
     \<lparr> masterPrefabHandle = 1,
       properties = [\<lparr> path = ''Transform/position'' \<rparr>],
       components = [\<lparr> componentName = ''Audio'' \<rparr>] \<rparr>"

definition example_X :: "json entity_data" where
  "example_X =
     \<lparr> uuidComponent = Some 100,
       overrideComponent = Some example_ledger,
       transformComponent = None,
       reflected =
         [''Transform'' \<mapsto> (\<lambda>propName. JNull)
             (''position'' := JArray [JNumber 1, JNumber 1, JNumber 1],
              ''rotation'' := JArray [JNumber 0, JNumber 0, JNumber 0]),
          ''Child'' \<mapsto> (\<lambda>propName. JNull) (''Parent'' := JNumber 3),
          ''Light'' \<mapsto> (\<lambda>propName. JNull) (''intensity'' := JNumber 5),
          ''Audio'' \<mapsto> (\<lambda>propName. JNull) (''clip'' := JString ''roar'')] \<rparr>"

definition example_Y :: "json entity_data" where
  "example_Y =
     \<lparr> uuidComponent = Some 101,
       overrideComponent = Some \<lparr> masterPrefabHandle = 2, properties = [], components = [] \<rparr>,
       transformComponent = None,
       reflected = [''Light'' \<mapsto> (\<lambda>propName. JNull) (''intensity'' := JNumber 2)] \<rparr>"

definition example_Z :: "json entity_data" where
  "example_Z =
     \<lparr> uuidComponent = Some 102,
       overrideComponent = None,
       transformComponent = None,
       reflected = [''Light'' \<mapsto> (\<lambda>propName. JNull) (''intensity'' := JNumber 9)] \<rparr>"

definition example_scene :: "json scene" where
  "example_scene =
     \<lparr> registry = [Some example_X, None, Some example_Y, Some example_Z],
       uuidSource = (\<lambda>n. 1000 + n),
       uuidsMinted = 3,
       logged = [] \<rparr>"

text \<open>Instance X after the synchronization of handle 1, and the scene around it.\<close>

definition example_X_synced :: "json entity_data" where
  "example_X_synced =
     \<lparr> uuidComponent = Some 100,
       overrideComponent = Some example_ledger,
       transformComponent = None,
       reflected =
         [''Transform'' \<mapsto> (\<lambda>propName. JNull)
             (''position'' := JArray [JNumber 1, JNumber 1, JNumber 1],
              ''rotation'' := JArray [JNumber 0, JNumber 90, JNumber 0]),
          ''Child'' \<mapsto> (\<lambda>propName. JNull) (''Parent'' := JNumber 3),
          ''Audio'' \<mapsto> (\<lambda>propName. JNull) (''clip'' := JString ''roar''),
          ''Tag'' \<mapsto> (\<lambda>propName. JNull) (''name'' := JString ''Enemy'')] \<rparr>"

definition example_scene_synced :: "json scene" where
  "example_scene_synced =
     \<lparr> registry = [Some example_X_synced, None, Some example_Y, Some example_Z],
       uuidSource = (\<lambda>n. 1000 + n),
       uuidsMinted = 3,
       logged =
         [TEA_INFO ''Entity is not a prefab instance of {0}, so skip and check the next entity''
            [ArgText ''enemy.prefab'']] \<rparr>"






text \<open>
  A stage for the commands: one entity with a transform and a mesh renderer whose
  materials are three identifiers. One transform command was constructed with the
  transform the entity has, one with a transform it does not have.
\<close>

definition example_stage :: "unit variant scene" where
  "example_stage =
     \<lparr> registry =
         [Some \<lparr> uuidComponent = Some 7,
                 overrideComponent = None,
                 transformComponent = Some
                   \<lparr> position = \<lparr> vec_x = 0, vec_y = 0, vec_z = 0 \<rparr>,
                     rotation = \<lparr> vec_x = 0, vec_y = 0, vec_z = 0 \<rparr>,
                     scale = \<lparr> vec_x = 1, vec_y = 1, vec_z = 1 \<rparr> \<rparr>,
                 reflected =
                   [''MeshRenderer'' \<mapsto> (\<lambda>propName. Plain ())
                      (''materials'' := Sequential [11, 12, 13])] \<rparr>],
       uuidSource = (\<lambda>n. 1000 + n),
       uuidsMinted = 1,
       logged = [] \<rparr>"

definition example_move :: "unit command" where
  "example_move =
     TransformEntityCommand (Some 0)
       \<lparr> vec_x = 0, vec_y = 0, vec_z = 0 \<rparr> \<lparr> vec_x = 0, vec_y = 0, vec_z = 0 \<rparr>
       \<lparr> vec_x = 1, vec_y = 1, vec_z = 1 \<rparr>
       \<lparr> vec_x = 4, vec_y = 0, vec_z = 2 \<rparr> \<lparr> vec_x = 0, vec_y = 0, vec_z = 0 \<rparr>
       \<lparr> vec_x = 1, vec_y = 1, vec_z = 1 \<rparr>"

definition example_stale_move :: "unit command" where
  "example_stale_move =
     TransformEntityCommand (Some 0)
       \<lparr> vec_x = 5, vec_y = 5, vec_z = 5 \<rparr> \<lparr> vec_x = 0, vec_y = 0, vec_z = 0 \<rparr>
       \<lparr> vec_x = 1, vec_y = 1, vec_z = 1 \<rparr>
       \<lparr> vec_x = 4, vec_y = 0, vec_z = 2 \<rparr> \<lparr> vec_x = 0, vec_y = 0, vec_z = 0 \<rparr>
       \<lparr> vec_x = 1, vec_y = 1, vec_z = 1 \<rparr>"

definition example_material :: "unit command" where
  "example_material =
     ChangeMaterialInstanceCommand (0, ''MeshRenderer'')
       \<lparr> prop_name = ''materials'', prop_type = ''std::vector<UUID>'', prop_readonly = False \<rparr>
       (Sequential [11, 12, 13]) 1 12 99"

section \<open>The prefab synchronizer\<close>

subsection \<open>The JSON accessors and \<^verbatim>\<open>loadPrefab\<close>\<close>

lemma HasMember_object: "HasMember (JObject ms) name = Inr (map_of ms name \<noteq> None)"
  by (simp add: HasMember_def)

lemma operator_index_object:
  "operator_index (JObject ms) name = (case map_of ms name of Some m \<Rightarrow> Inr m | None \<Rightarrow> Inl AssertionFailed)"
  by (simp add: operator_index_def)

lemma loadPrefab_unopened:
  "fs p = None \<Longrightarrow> loadPrefab fs p = (newDocument, [TEA_INFO ''Failed to open prefab file: {0}'' [ArgText p]])"
  by (simp add: loadPrefab_def)

lemma loadPrefab_malformed:
  "fs p = Some None \<Longrightarrow> loadPrefab fs p =
     (\<lparr> doc_value = JNull, doc_parseError = True \<rparr>, [TEA_INFO ''Failed to parse prefab file: {0}'' [ArgText p]])"
  by (simp add: loadPrefab_def ParseStream_def newDocument_def HasParseError_def)

lemma loadPrefab_parsed:
  "fs p = Some (Some v) \<Longrightarrow> loadPrefab fs p = (\<lparr> doc_value = v, doc_parseError = False \<rparr>, [])"
  by (simp add: loadPrefab_def ParseStream_def newDocument_def HasParseError_def)

subsection \<open>Writing a property through a component\<close>

text \<open>
  A component is held in the reflective store when its name is neither of the two
  names of the identifier and the ledger.
\<close>

lemma write_ledger_other:
  "T \<noteq> ''OverrideComponent'' \<Longrightarrow>
   overrideComponent (snd (component_set_value eng q e T v)) = overrideComponent e"
  by (simp add: component_set_value_def Let_def split: option.splits)

lemma write_ledger_present:
  "overrideComponent e \<noteq> None \<Longrightarrow> overrideComponent (snd (component_set_value eng q e T v)) \<noteq> None"
  by (auto simp: component_set_value_def Let_def split: option.splits)



lemma write_hasComponent:
  "hasComponent (snd (component_set_value eng q e T v)) T' = hasComponent e T'"
  by (auto simp: component_set_value_def hasComponent_def Let_def split: option.splits)

lemma getComponent_present: "getComponent eng e T \<noteq> None \<longleftrightarrow> hasComponent e T"
  by (simp add: getComponent_def hasComponent_def)



subsection \<open>The loop over the properties\<close>

lemma syncProperty_skipped:
  "prop_name q = ''Scene ID'' \<or> prop_name q = ''Parent'' \<Longrightarrow> syncProperty eng T cd e q = Inr e"
  by (auto simp: syncProperty_def Let_def)

lemma syncProperty_overridden:
  "overrideComponent e = Some oc \<Longrightarrow> isOverridden oc (T @ ''/'' @ prop_name q) \<Longrightarrow>
   syncProperty eng T cd e q = Inr e"
  by (simp add: syncProperty_def Let_def overrideRef_def)

lemma syncProperty_dangling:
  "prop_name q \<noteq> ''Scene ID'' \<Longrightarrow> prop_name q \<noteq> ''Parent'' \<Longrightarrow> overrideComponent e = None \<Longrightarrow>
   syncProperty eng T cd e q = Inl DanglingReference"
  by (simp add: syncProperty_def Let_def overrideRef_def)

lemma syncProperty_unfolded:
  assumes "prop_name q \<noteq> ''Scene ID''" "prop_name q \<noteq> ''Parent''"
    and "overrideComponent e = Some oc" "\<not> isOverridden oc (T @ ''/'' @ prop_name q)"
  shows "syncProperty eng T cd e q =
      (case HasMember cd (prop_name q) of
         Inl err \<Rightarrow> Inl err
       | Inr False \<Rightarrow> Inr e
       | Inr True \<Rightarrow>
           (case operator_index cd (prop_name q) of
              Inl err \<Rightarrow> Inl err
            | Inr propValue \<Rightarrow>
                (case getComponent eng e T of
                   None \<Rightarrow> Inl DanglingReference
                 | Some c \<Rightarrow>
                     Inr (snd (component_set_value eng q e T
                       (deserializeEachProperty eng propValue (get_value q c) (prop_type q)))))))"
  using assms
  by (simp add: syncProperty_def Let_def overrideRef_def
        cong: sum.case_cong bool.case_cong option.case_cong)


text \<open>One step either leaves the entity as it is or writes one value through the component.\<close>

lemma syncProperty_effect:
  assumes res: "syncProperty eng T cd e q = Inr e'"
  shows "e' = e \<or> (\<exists>v. e' = snd (component_set_value eng q e T v))"
proof (cases "prop_name q = ''Scene ID'' \<or> prop_name q = ''Parent''")
  case True
  with res show ?thesis by (simp add: syncProperty_skipped)
next
  case False
  then have names: "prop_name q \<noteq> ''Scene ID''" "prop_name q \<noteq> ''Parent''" by simp_all
  show ?thesis
  proof (cases "overrideComponent e")
    case None
    with names res show ?thesis by (simp add: syncProperty_dangling)
  next
    case (Some oc)
    show ?thesis
    proof (cases "isOverridden oc (T @ ''/'' @ prop_name q)")
      case True
      with Some res show ?thesis by (simp add: syncProperty_overridden)
    next
      case no: False
      note unfolded = syncProperty_unfolded [OF names Some no, of eng cd]
      show ?thesis
      proof (cases "HasMember cd (prop_name q)")
        case (Inl err)
        with res unfolded show ?thesis by simp
      next
        case (Inr b)
        show ?thesis
        proof (cases b)
          case False
          with res unfolded Inr show ?thesis by simp
        next
          case True
          show ?thesis
          proof (cases "operator_index cd (prop_name q)")
            case (Inl err)
            with res unfolded Inr True show ?thesis by simp
          next
            case inner: (Inr propValue)
            show ?thesis
            proof (cases "getComponent eng e T")
              case None
              with res unfolded Inr True inner show ?thesis by simp
            next
              case (Some c)
              with res unfolded Inr True inner have
                "e' = snd (component_set_value eng q e T
                   (deserializeEachProperty eng propValue (get_value q c) (prop_type q)))"
                by simp
              then show ?thesis by blast
            qed
          qed
        qed
      qed
    qed
  qed
qed

lemma syncProperty_ledger:
  assumes "syncProperty eng T cd e q = Inr e'" "T \<noteq> ''OverrideComponent''"
  shows "overrideComponent e' = overrideComponent e"
  using syncProperty_effect [OF assms(1)] assms(2) by (auto simp: write_ledger_other)

lemma syncProperty_ledger_present:
  assumes "syncProperty eng T cd e q = Inr e'" "overrideComponent e \<noteq> None"
  shows "overrideComponent e' \<noteq> None"
  using syncProperty_effect [OF assms(1)] assms(2) write_ledger_present [of e eng q T] by auto


lemma syncProperty_hasComponent:
  assumes "syncProperty eng T cd e q = Inr e'"
  shows "hasComponent e' T' = hasComponent e T'"
  using syncProperty_effect [OF assms] by (auto simp: write_hasComponent)

lemma syncProperties_ledger:
  "syncProperties eng T cd e props = Inr e' \<Longrightarrow> T \<noteq> ''OverrideComponent'' \<Longrightarrow>
   overrideComponent e' = overrideComponent e"
proof (induction props arbitrary: e)
  case Nil
  then show ?case by simp
next
  case (Cons q props)
  from Cons.prems(1) obtain e1 where
    q: "syncProperty eng T cd e q = Inr e1" and rest: "syncProperties eng T cd e1 props = Inr e'"
    by (auto split: sum.splits)
  from q Cons.prems(2) have "overrideComponent e1 = overrideComponent e" by (rule syncProperty_ledger)
  with Cons.IH [OF rest Cons.prems(2)] show ?case by simp
qed

lemma syncProperties_ledger_present:
  "syncProperties eng T cd e props = Inr e' \<Longrightarrow> overrideComponent e \<noteq> None \<Longrightarrow>
   overrideComponent e' \<noteq> None"
proof (induction props arbitrary: e)
  case Nil
  then show ?case by simp
next
  case (Cons q props)
  from Cons.prems(1) obtain e1 where
    q: "syncProperty eng T cd e q = Inr e1" and rest: "syncProperties eng T cd e1 props = Inr e'"
    by (auto split: sum.splits)
  from q Cons.prems(2) have "overrideComponent e1 \<noteq> None" by (rule syncProperty_ledger_present)
  with rest show ?case by (rule Cons.IH)
qed


lemma syncProperties_hasComponent:
  "syncProperties eng T cd e props = Inr e' \<Longrightarrow> hasComponent e' T' = hasComponent e T'"
proof (induction props arbitrary: e)
  case Nil
  then show ?case by simp
next
  case (Cons q props)
  from Cons.prems(1) obtain e1 where
    q: "syncProperty eng T cd e q = Inr e1" and rest: "syncProperties eng T cd e1 props = Inr e'"
    by (auto split: sum.splits)
  from q have "hasComponent e1 T' = hasComponent e T'" by (rule syncProperty_hasComponent)
  with Cons.IH [OF rest] show ?case by simp
qed

subsection \<open>The loop over the properties of a component of the reflective store\<close>

lemma getComponent_reflected:
  "T \<noteq> ''UUIDComponent'' \<Longrightarrow> T \<noteq> ''OverrideComponent'' \<Longrightarrow> getComponent eng e T = reflected e T"
  by (simp add: getComponent_def)

lemma hasComponent_reflected:
  "T \<noteq> ''UUIDComponent'' \<Longrightarrow> T \<noteq> ''OverrideComponent'' \<Longrightarrow>
   hasComponent e T \<longleftrightarrow> reflected e T \<noteq> None"
  by (simp add: hasComponent_def)





lemma syncProperties_reflected_present:
  "syncProperties eng T cd e props = Inr e' \<Longrightarrow>
   T \<noteq> ''UUIDComponent'' \<Longrightarrow> T \<noteq> ''OverrideComponent'' \<Longrightarrow> reflected e T = Some c \<Longrightarrow>
   \<exists>c'. reflected e' T = Some c'"
  using syncProperties_hasComponent [of eng T cd e props e' T]
  by (auto simp: hasComponent_reflected)



subsection \<open>The body of the loop over the component types\<close>

lemma syncComponentData_object:
  "syncComponentData eng (JObject ms) ct (e, out) =
     (case map_of ms (type_name ct) of
        None \<Rightarrow> Inr (e, out)
      | Some cd \<Rightarrow>
          (if \<not> hasComponent e (type_name ct)
           then Inr (e, out @ [TEA_WARNING ''Entity does not have component {0}. Skipping.''
                                 [ArgText (type_name ct)]])
           else (case syncProperties eng (type_name ct) cd e (type_properties ct) of
                   Inl err \<Rightarrow> Inl err
                 | Inr e' \<Rightarrow> Inr (e', out))))"
proof (cases "getComponent eng e (type_name ct)")
  case None
  with getComponent_present [of eng e "type_name ct"] have "\<not> hasComponent e (type_name ct)" by simp
  with None show ?thesis
    by (simp add: syncComponentData_def Let_def HasMember_object operator_index_object
          split: option.splits)
next
  case (Some componentVar)
  with getComponent_present [of eng e "type_name ct"] have "hasComponent e (type_name ct)" by simp
  with Some show ?thesis
    by (simp add: syncComponentData_def Let_def HasMember_object operator_index_object
          split: option.splits)
qed

lemma syncComponentData_absent:
  "map_of ms (type_name ct) = None \<Longrightarrow> syncComponentData eng (JObject ms) ct (e, out) = Inr (e, out)"
  by (simp add: syncComponentData_object)

lemma syncComponentData_present:
  assumes "syncComponentData eng (JObject ms) ct (e, out) = Inr (e', out')"
    and "map_of ms (type_name ct) = Some cd" and "hasComponent e (type_name ct)"
  shows "syncProperties eng (type_name ct) cd e (type_properties ct) = Inr e'"
  using assms by (simp add: syncComponentData_object split: sum.splits)

text \<open>What follows the add and the remove rule either leaves the entity or is the loop over the properties.\<close>

lemma syncComponentData_effect:
  assumes "syncComponentData eng (JObject ms) ct (e, out) = Inr (e', out')"
  shows "e' = e \<or> (\<exists>cd. syncProperties eng (type_name ct) cd e (type_properties ct) = Inr e')"
proof (cases "map_of ms (type_name ct)")
  case None
  with assms show ?thesis by (simp add: syncComponentData_object)
next
  case (Some cd)
  show ?thesis
  proof (cases "hasComponent e (type_name ct)")
    case False
    with assms Some show ?thesis by (simp add: syncComponentData_object)
  next
    case True
    with assms Some have "syncProperties eng (type_name ct) cd e (type_properties ct) = Inr e'"
      by (rule syncComponentData_present)
    then show ?thesis by blast
  qed
qed


lemma syncComponentData_ledger:
  assumes "syncComponentData eng (JObject ms) ct (e, out) = Inr (e', out')"
    "type_name ct \<noteq> ''OverrideComponent''"
  shows "overrideComponent e' = overrideComponent e"
  using syncComponentData_effect [OF assms(1)] assms(2)
    syncProperties_ledger [of eng "type_name ct" _ e "type_properties ct" e']
  by auto

lemma syncComponentData_ledger_present:
  assumes "syncComponentData eng (JObject ms) ct (e, out) = Inr (e', out')"
    "overrideComponent e \<noteq> None"
  shows "overrideComponent e' \<noteq> None"
  using syncComponentData_effect [OF assms(1)] assms(2)
    syncProperties_ledger_present [of eng "type_name ct" _ e "type_properties ct" e']
  by auto

text \<open>The body of the loop over the types, and its branches.\<close>

lemma syncComponentType_SceneID:
  "type_name ct = ''Scene ID'' \<Longrightarrow> syncComponentType eng ed (e, out) ct = Inr (e, out)"
  by (simp add: syncComponentType_def)

lemma syncComponentType_dangling:
  "type_name ct \<noteq> ''Scene ID'' \<Longrightarrow> overrideComponent e = None \<Longrightarrow>
   syncComponentType eng (JObject ms) (e, out) ct = Inl DanglingReference"
  by (simp add: syncComponentType_def Let_def HasMember_object overrideRef_def)

lemma syncComponentType_add:
  assumes "type_name ct \<noteq> ''Scene ID''" "overrideComponent e = Some oc"
    "map_of ms (type_name ct) \<noteq> None"
    "\<not> hasComponent e (type_name ct)" "\<not> isLocallyAdded (components oc) (type_name ct)"
  shows "syncComponentType eng (JObject ms) (e, out) ct =
     (if type_name ct = ''Child'' \<or> type_name ct = ''Parent'' then Inr (e, out)
      else syncComponentData eng (JObject ms) ct (addComponent eng e (type_name ct), out))"
  using assms by (simp add: syncComponentType_def Let_def HasMember_object overrideRef_def)

lemma syncComponentType_remove:
  assumes "type_name ct \<noteq> ''Scene ID''" "overrideComponent e = Some oc"
    "map_of ms (type_name ct) = None" "hasComponent e (type_name ct)"
  shows "syncComponentType eng (JObject ms) (e, out) ct =
     (if type_name ct = ''UUIDComponent'' \<or> type_name ct = ''OverrideComponent'' then Inr (e, out)
      else syncComponentData eng (JObject ms) ct
             (if \<not> isLocallyAdded (components oc) (type_name ct)
              then removeComponent e (type_name ct) else e, out))"
  using assms by (simp add: syncComponentType_def Let_def HasMember_object overrideRef_def)

lemma syncComponentType_both:
  assumes "type_name ct \<noteq> ''Scene ID''" "overrideComponent e = Some oc"
    "map_of ms (type_name ct) \<noteq> None" "hasComponent e (type_name ct)"
  shows "syncComponentType eng (JObject ms) (e, out) ct =
           syncComponentData eng (JObject ms) ct (e, out)"
  using assms by (simp add: syncComponentType_def Let_def HasMember_object overrideRef_def)

lemma syncComponentType_local:
  assumes "type_name ct \<noteq> ''Scene ID''" "overrideComponent e = Some oc"
    "map_of ms (type_name ct) \<noteq> None" "isLocallyAdded (components oc) (type_name ct)"
  shows "syncComponentType eng (JObject ms) (e, out) ct =
           syncComponentData eng (JObject ms) ct (e, out)"
  using assms by (simp add: syncComponentType_def Let_def HasMember_object overrideRef_def)

lemma syncComponentType_neither:
  assumes "type_name ct \<noteq> ''Scene ID''" "overrideComponent e = Some oc"
    "map_of ms (type_name ct) = None" "\<not> hasComponent e (type_name ct)"
  shows "syncComponentType eng (JObject ms) (e, out) ct = Inr (e, out)"
  using assms
  by (simp add: syncComponentType_def Let_def HasMember_object overrideRef_def
        syncComponentData_absent)

text \<open>
  One turn of the loop over the types applies the add rule, the remove rule or neither
  to the entity, and then leaves it or runs the loop over the properties.
\<close>

lemma syncComponentType_effect:
  assumes res: "syncComponentType eng (JObject ms) (e, out) ct = Inr (e', out')"
  shows "e' = e \<or>
         (\<exists>e0. (e0 = e
                \<or> e0 = addComponent eng e (type_name ct) \<and> \<not> hasComponent e (type_name ct)
                \<or> e0 = removeComponent e (type_name ct) \<and> type_name ct \<noteq> ''UUIDComponent''
                    \<and> type_name ct \<noteq> ''OverrideComponent'')
               \<and> syncComponentData eng (JObject ms) ct (e0, out) = Inr (e', out'))"
proof (cases "type_name ct = ''Scene ID''")
  case True
  with res show ?thesis by (simp add: syncComponentType_SceneID)
next
  case notScene: False
  show ?thesis
  proof (cases "overrideComponent e")
    case None
    with notScene res show ?thesis by (simp add: syncComponentType_dangling)
  next
    case (Some oc)
    show ?thesis
    proof (cases "map_of ms (type_name ct) = None")
      case absent: True
      show ?thesis
      proof (cases "hasComponent e (type_name ct)")
        case False
        with notScene Some absent res show ?thesis by (simp add: syncComponentType_neither)
      next
        case True
        note rm = syncComponentType_remove [OF notScene Some absent True, of eng out]
        show ?thesis
        proof (cases "type_name ct = ''UUIDComponent'' \<or> type_name ct = ''OverrideComponent''")
          case True
          with rm res show ?thesis by simp
        next
          case False
          show ?thesis
          proof (cases "isLocallyAdded (components oc) (type_name ct)")
            case True
            with rm res False have "syncComponentData eng (JObject ms) ct (e, out) = Inr (e', out')"
              by simp
            then show ?thesis by blast
          next
            case notLocal: False
            with rm res False have
              "syncComponentData eng (JObject ms) ct (removeComponent e (type_name ct), out)
                 = Inr (e', out')" by simp
            with False show ?thesis by blast
          qed
        qed
      qed
    next
      case present: False
      show ?thesis
      proof (cases "\<not> hasComponent e (type_name ct) \<and> \<not> isLocallyAdded (components oc) (type_name ct)")
        case True
        then have inst: "\<not> hasComponent e (type_name ct)"
          and loc: "\<not> isLocallyAdded (components oc) (type_name ct)" by simp_all
        note ad = syncComponentType_add [OF notScene Some present inst loc, of eng out]
        show ?thesis
        proof (cases "type_name ct = ''Child'' \<or> type_name ct = ''Parent''")
          case True
          with ad res show ?thesis by simp
        next
          case False
          with ad res have
            "syncComponentData eng (JObject ms) ct (addComponent eng e (type_name ct), out)
               = Inr (e', out')" by simp
          with inst show ?thesis by blast
        qed
      next
        case False
        then consider "hasComponent e (type_name ct)"
          | "isLocallyAdded (components oc) (type_name ct)" by blast
        then have "syncComponentType eng (JObject ms) (e, out) ct =
             syncComponentData eng (JObject ms) ct (e, out)"
        proof cases
          case 1
          with notScene Some present show ?thesis by (rule syncComponentType_both)
        next
          case 2
          with notScene Some present show ?thesis by (rule syncComponentType_local)
        qed
        with res have "syncComponentData eng (JObject ms) ct (e, out) = Inr (e', out')" by simp
        then show ?thesis by blast
      qed
    qed
  qed
qed


lemma syncComponentType_ledger_other:
  assumes res: "syncComponentType eng (JObject ms) (e, out) ct = Inr (e', out')"
    and ne: "type_name ct \<noteq> ''OverrideComponent''"
  shows "overrideComponent e' = overrideComponent e"
proof -
  from syncComponentType_effect [OF res] consider "e' = e"
    | e0 where "e0 = e \<or> e0 = addComponent eng e (type_name ct) \<or> e0 = removeComponent e (type_name ct)"
        "syncComponentData eng (JObject ms) ct (e0, out) = Inr (e', out')" by blast
  then show ?thesis
  proof cases
    case 1
    then show ?thesis by simp
  next
    case 2
    from 2(2) ne have "overrideComponent e' = overrideComponent e0" by (rule syncComponentData_ledger)
    moreover from 2(1) ne have "overrideComponent e0 = overrideComponent e"
      by (auto simp: addComponent_def removeComponent_def)
    ultimately show ?thesis by simp
  qed
qed

lemma syncComponentType_ledger_present:
  assumes res: "syncComponentType eng (JObject ms) (e, out) ct = Inr (e', out')"
    and ov: "overrideComponent e \<noteq> None"
  shows "overrideComponent e' \<noteq> None"
proof -
  from syncComponentType_effect [OF res] consider "e' = e"
    | e0 where "e0 = e \<or> e0 = addComponent eng e (type_name ct)
        \<or> e0 = removeComponent e (type_name ct) \<and> type_name ct \<noteq> ''OverrideComponent''"
        "syncComponentData eng (JObject ms) ct (e0, out) = Inr (e', out')" by blast
  then show ?thesis
  proof cases
    case 1
    with ov show ?thesis by simp
  next
    case 2
    from 2(1) ov have "overrideComponent e0 \<noteq> None"
      by (auto simp: addComponent_def removeComponent_def)
    with 2(2) show ?thesis by (rule syncComponentData_ledger_present)
  qed
qed

text \<open>When the master has no entry for the ledger, a turn of the loop leaves the ledger.\<close>

lemma syncComponentType_ledger:
  assumes res: "syncComponentType eng (JObject ms) (e, out) ct = Inr (e', out')"
    and none: "map_of ms ''OverrideComponent'' = None"
  shows "overrideComponent e' = overrideComponent e"
proof (cases "type_name ct = ''OverrideComponent''")
  case False
  with res show ?thesis by (rule syncComponentType_ledger_other)
next
  case True
  then have notScene: "type_name ct \<noteq> ''Scene ID''" by simp
  show ?thesis
  proof (cases "overrideComponent e")
    case None
    with notScene res show ?thesis by (simp add: syncComponentType_dangling)
  next
    case (Some oc)
    from none True have absent: "map_of ms (type_name ct) = None" by simp
    from Some True have inst: "hasComponent e (type_name ct)" by (simp add: hasComponent_def)
    from syncComponentType_remove [OF notScene Some absent inst, of eng out] True res
    show ?thesis by simp
  qed
qed

subsection \<open>The rules on a component of the reflective store\<close>






subsection \<open>The loop over the component types\<close>


text \<open>
  The ledger stays as it is over the whole loop when the master has no entry named
  \<^verbatim>\<open>OverrideComponent\<close>.
\<close>

lemma syncComponentTypes_ledger:
  "syncComponentTypes eng (JObject ms) (e, out) types = Inr (e', out') \<Longrightarrow>
   map_of ms ''OverrideComponent'' = None \<Longrightarrow> overrideComponent e' = overrideComponent e"
proof (induction types arbitrary: e out)
  case Nil
  then show ?case by simp
next
  case (Cons ct types)
  from Cons.prems(1) obtain e1 out1 where
    step: "syncComponentType eng (JObject ms) (e, out) ct = Inr (e1, out1)" and
    rest: "syncComponentTypes eng (JObject ms) (e1, out1) types = Inr (e', out')"
    by (auto split: sum.splits)
  from step Cons.prems(2) have "overrideComponent e1 = overrideComponent e"
    by (rule syncComponentType_ledger)
  with Cons.IH [OF rest Cons.prems(2)] show ?case by simp
qed







subsection \<open>The loop over the view and the whole pass\<close>


lemma syncView_Cons:
  assumes "syncView eng h pth doc out (slot # slots) = Inr (r, out')"
  shows "\<exists>s' rest out1. r = s' # rest \<and> syncView eng h pth doc out1 slots = Inr (rest, out') \<and>
           (case slot of
              None \<Rightarrow> s' = None
            | Some e \<Rightarrow>
                (case uuidComponent e of
                   None \<Rightarrow> s' = slot
                 | Some u \<Rightarrow>
                     (case overrideComponent e of
                        None \<Rightarrow> s' = slot
                      | Some oc \<Rightarrow>
                          (\<exists>e'. syncInstance eng h pth doc (e, out) = Inr (e', out1) \<and> s' = Some e'))))"
proof (cases slot)
  case None
  with assms show ?thesis by (auto split: sum.splits)
next
  case (Some e)
  show ?thesis
  proof (cases "uuidComponent e")
    case None
    with Some assms show ?thesis by (auto split: sum.splits)
  next
    case u: (Some u)
    show ?thesis
    proof (cases "overrideComponent e")
      case None
      with Some u assms show ?thesis by (auto split: sum.splits)
    next
      case oc: (Some oc)
      with Some u assms show ?thesis by (auto split: sum.splits)
    qed
  qed
qed

lemma syncView_length:
  "syncView eng h pth doc out slots = Inr (slots', out') \<Longrightarrow> length slots' = length slots"
proof (induction slots arbitrary: out slots')
  case Nil
  then show ?case by simp
next
  case (Cons slot slots)
  from syncView_Cons [OF Cons.prems] obtain s' rest out1 where
    "slots' = s' # rest" "syncView eng h pth doc out1 slots = Inr (rest, out')" by blast
  with Cons.IH show ?case by simp
qed

lemma syncView_in_view:
  "syncView eng h pth doc out slots = Inr (slots', out') \<Longrightarrow> i < length slots \<Longrightarrow>
   slots ! i = Some e \<Longrightarrow> uuidComponent e = Some u \<Longrightarrow> overrideComponent e = Some oc \<Longrightarrow>
   \<exists>out0 e' out1. syncInstance eng h pth doc (e, out0) = Inr (e', out1) \<and> slots' ! i = Some e'"
proof (induction slots arbitrary: out slots' i)
  case Nil
  then show ?case by simp
next
  case (Cons slot slots)
  from syncView_Cons [OF Cons.prems(1)] obtain s' rest out1 where
    r: "slots' = s' # rest" and rest: "syncView eng h pth doc out1 slots = Inr (rest, out')" and
    hd: "(case slot of
              None \<Rightarrow> s' = None
            | Some e \<Rightarrow>
                (case uuidComponent e of
                   None \<Rightarrow> s' = slot
                 | Some u \<Rightarrow>
                     (case overrideComponent e of
                        None \<Rightarrow> s' = slot
                      | Some oc \<Rightarrow>
                          (\<exists>e'. syncInstance eng h pth doc (e, out) = Inr (e', out1) \<and> s' = Some e'))))"
    by blast
  show ?case
  proof (cases i)
    case 0
    with Cons.prems hd r show ?thesis by auto
  next
    case (Suc j)
    with Cons.prems have "j < length slots" "slots ! j = Some e" by simp_all
    from Cons.IH [OF rest this Cons.prems(4,5)] r Suc show ?thesis by simp
  qed
qed

lemma syncView_not_in_view:
  "syncView eng h pth doc out slots = Inr (slots', out') \<Longrightarrow> i < length slots \<Longrightarrow>
   (case slots ! i of None \<Rightarrow> True
    | Some e \<Rightarrow> uuidComponent e = None \<or> overrideComponent e = None) \<Longrightarrow>
   slots' ! i = slots ! i"
proof (induction slots arbitrary: out slots' i)
  case Nil
  then show ?case by simp
next
  case (Cons slot slots)
  from syncView_Cons [OF Cons.prems(1)] obtain s' rest out1 where
    r: "slots' = s' # rest" and rest: "syncView eng h pth doc out1 slots = Inr (rest, out')" and
    hd: "(case slot of
              None \<Rightarrow> s' = None
            | Some e \<Rightarrow>
                (case uuidComponent e of
                   None \<Rightarrow> s' = slot
                 | Some u \<Rightarrow>
                     (case overrideComponent e of
                        None \<Rightarrow> s' = slot
                      | Some oc \<Rightarrow>
                          (\<exists>e'. syncInstance eng h pth doc (e, out) = Inr (e', out1) \<and> s' = Some e'))))"
    by blast
  show ?case
  proof (cases i)
    case 0
    with Cons.prems(3) hd r show ?thesis by (auto split: option.splits)
  next
    case (Suc j)
    with Cons.prems have "j < length slots"
      "(case slots ! j of None \<Rightarrow> True
        | Some e \<Rightarrow> uuidComponent e = None \<or> overrideComponent e = None)" by simp_all
    from Cons.IH [OF rest this] r Suc show ?thesis by simp
  qed
qed

lemma syncInstance_other_handle:
  "syncInstance eng h pth doc (e, out) = Inr (e', out') \<Longrightarrow> overrideComponent e = Some oc \<Longrightarrow>
   masterPrefabHandle oc \<noteq> h \<Longrightarrow> e' = e"
  by (simp add: syncInstance_def overrideRef_def)


lemma masterEntity_SomeD:
  assumes "masterEntity eng h = Some ms"
  shows "\<exists>members. files eng (getSourceFilePath eng h) = Some (Some (JObject members))
            \<and> map_of members ''Entity'' = Some (JObject ms)"
  using assms
  by (simp add: masterEntity_def split: option.splits json.splits)



subsection \<open>When a pass returns\<close>

text \<open>
  The pass can only stop at an assertion of rapidjson: the reference to the ledger
  stays valid, because no turn of the loops removes the ledger. The pass returns for
  every scene when the master document has the persisted layout: an object whose member
  \<^verbatim>\<open>"Entity"\<close> is an object whose members are objects.
\<close>

lemma syncProperty_returns:
  assumes "overrideComponent e \<noteq> None" "hasComponent e T"
  shows "\<exists>e'. syncProperty eng T (JObject pm) e q = Inr e'"
proof (cases "prop_name q = ''Scene ID'' \<or> prop_name q = ''Parent''")
  case True
  then show ?thesis by (simp add: syncProperty_skipped)
next
  case False
  then have names: "prop_name q \<noteq> ''Scene ID''" "prop_name q \<noteq> ''Parent''" by simp_all
  from assms(1) obtain oc where ov: "overrideComponent e = Some oc" by blast
  from assms(2) obtain c where g: "getComponent eng e T = Some c"
    using getComponent_present [of eng e T] by auto
  show ?thesis
  proof (cases "isOverridden oc (T @ ''/'' @ prop_name q)")
    case True
    with ov show ?thesis by (simp add: syncProperty_overridden)
  next
    case no: False
    show ?thesis
    proof (cases "map_of pm (prop_name q)")
      case None
      with syncProperty_unfolded [OF names ov no, of eng "JObject pm"] show ?thesis
        by (simp add: HasMember_object)
    next
      case (Some v)
      with syncProperty_unfolded [OF names ov no, of eng "JObject pm"] g show ?thesis
        by (simp add: HasMember_object operator_index_object)
    qed
  qed
qed

lemma syncProperties_returns:
  "overrideComponent e \<noteq> None \<Longrightarrow> hasComponent e T \<Longrightarrow>
   \<exists>e'. syncProperties eng T (JObject pm) e props = Inr e'"
proof (induction props arbitrary: e)
  case Nil
  show ?case by simp
next
  case (Cons q props)
  from syncProperty_returns [OF Cons.prems] obtain e1 where
    q: "syncProperty eng T (JObject pm) e q = Inr e1" by blast
  from q Cons.prems(1) have ov1: "overrideComponent e1 \<noteq> None" by (rule syncProperty_ledger_present)
  from q have "hasComponent e1 T = hasComponent e T" by (rule syncProperty_hasComponent)
  with Cons.prems(2) have has1: "hasComponent e1 T" by simp
  from Cons.IH [OF ov1 has1] q show ?case by simp
qed

lemma syncComponentData_returns:
  assumes "\<forall>T cd. map_of ms T = Some cd \<longrightarrow> IsObject cd" and "overrideComponent e \<noteq> None"
  shows "\<exists>st'. syncComponentData eng (JObject ms) ct (e, out) = Inr st'"
proof (cases "map_of ms (type_name ct)")
  case None
  then show ?thesis by (simp add: syncComponentData_object)
next
  case (Some cd)
  with assms(1) have "IsObject cd" by blast
  then obtain pm where cd: "cd = JObject pm" by (cases cd) (simp_all add: IsObject_def)
  show ?thesis
  proof (cases "hasComponent e (type_name ct)")
    case False
    with Some show ?thesis by (simp add: syncComponentData_object)
  next
    case True
    from syncProperties_returns [OF assms(2) True] obtain e' where
      "syncProperties eng (type_name ct) (JObject pm) e (type_properties ct) = Inr e'" by blast
    with Some True cd show ?thesis by (simp add: syncComponentData_object)
  qed
qed

lemma syncComponentType_returns:
  assumes objects: "\<forall>T cd. map_of ms T = Some cd \<longrightarrow> IsObject cd"
    and ov: "overrideComponent e \<noteq> None"
  shows "\<exists>st'. syncComponentType eng (JObject ms) (e, out) ct = Inr st'"
proof (cases "type_name ct = ''Scene ID''")
  case True
  then show ?thesis by (simp add: syncComponentType_SceneID)
next
  case notScene: False
  from ov obtain oc where oc: "overrideComponent e = Some oc" by blast
  have data: "\<exists>st'. syncComponentData eng (JObject ms) ct (e0, out) = Inr st'"
    if "overrideComponent e0 \<noteq> None" for e0
    using objects that by (rule syncComponentData_returns)
  show ?thesis
  proof (cases "map_of ms (type_name ct) = None")
    case absent: True
    show ?thesis
    proof (cases "hasComponent e (type_name ct)")
      case False
      with notScene oc absent show ?thesis by (simp add: syncComponentType_neither)
    next
      case True
      note rm = syncComponentType_remove [OF notScene oc absent True, of eng out]
      show ?thesis
      proof (cases "type_name ct = ''UUIDComponent'' \<or> type_name ct = ''OverrideComponent''")
        case True
        with rm show ?thesis by simp
      next
        case False
        with ov have "overrideComponent (if \<not> isLocallyAdded (components oc) (type_name ct)
              then removeComponent e (type_name ct) else e) \<noteq> None"
          by (simp add: removeComponent_def)
        from data [OF this] rm False show ?thesis by simp
      qed
    qed
  next
    case present: False
    show ?thesis
    proof (cases "\<not> hasComponent e (type_name ct) \<and> \<not> isLocallyAdded (components oc) (type_name ct)")
      case True
      then have inst: "\<not> hasComponent e (type_name ct)"
        and loc: "\<not> isLocallyAdded (components oc) (type_name ct)" by simp_all
      note ad = syncComponentType_add [OF notScene oc present inst loc, of eng out]
      from ov have "overrideComponent (addComponent eng e (type_name ct)) \<noteq> None"
        by (simp add: addComponent_def)
      from data [OF this] ad show ?thesis by auto
    next
      case False
      then consider "hasComponent e (type_name ct)"
        | "isLocallyAdded (components oc) (type_name ct)" by blast
      then have "syncComponentType eng (JObject ms) (e, out) ct =
           syncComponentData eng (JObject ms) ct (e, out)"
      proof cases
        case 1
        with notScene oc present show ?thesis by (rule syncComponentType_both)
      next
        case 2
        with notScene oc present show ?thesis by (rule syncComponentType_local)
      qed
      with data [OF ov] show ?thesis by simp
    qed
  qed
qed

lemma syncComponentTypes_returns:
  assumes "\<forall>T cd. map_of ms T = Some cd \<longrightarrow> IsObject cd"
  shows "overrideComponent (fst st) \<noteq> None \<Longrightarrow>
         \<exists>st'. syncComponentTypes eng (JObject ms) st types = Inr st'"
proof (induction types arbitrary: st)
  case Nil
  show ?case by simp
next
  case (Cons ct types)
  obtain e out where st: "st = (e, out)" by (cases st)
  with Cons.prems have ov: "overrideComponent e \<noteq> None" by simp
  from syncComponentType_returns [OF assms ov, of eng out ct] obtain e1 out1 where
    step: "syncComponentType eng (JObject ms) (e, out) ct = Inr (e1, out1)" by auto
  from step ov have "overrideComponent e1 \<noteq> None" by (rule syncComponentType_ledger_present)
  then have "overrideComponent (fst (e1, out1)) \<noteq> None" by simp
  from Cons.IH [OF this] step st show ?case by simp
qed

lemma syncInstance_returns:
  assumes "doc_value doc = JObject members" "map_of members ''Entity'' = Some (JObject ms)"
    and "\<forall>T cd. map_of ms T = Some cd \<longrightarrow> IsObject cd"
    and "overrideComponent (fst st) \<noteq> None"
  shows "\<exists>st'. syncInstance eng h pth doc st = Inr st'"
  using assms(1,2,4) syncComponentTypes_returns [OF assms(3,4), where eng = eng
      and types = "getAllComponentTypes eng"]
  by (auto simp: syncInstance_def overrideRef_def operator_index_object IsObject_def)

lemma syncView_returns:
  assumes "doc_value doc = JObject members" "map_of members ''Entity'' = Some (JObject ms)"
    and "\<forall>T cd. map_of ms T = Some cd \<longrightarrow> IsObject cd"
  shows "\<exists>r. syncView eng h pth doc out slots = Inr r"
proof (induction slots arbitrary: out)
  case Nil
  show ?case by simp
next
  case (Cons slot slots)
  show ?case
  proof (cases slot)
    case None
    from Cons.IH [of out] obtain slots' out' where
      "syncView eng h pth doc out slots = Inr (slots', out')" by auto
    with None show ?thesis by simp
  next
    case (Some e)
    show ?thesis
    proof (cases "uuidComponent e")
      case None
      from Cons.IH [of out] obtain slots' out' where
        "syncView eng h pth doc out slots = Inr (slots', out')" by auto
      with Some None show ?thesis by simp
    next
      case u: (Some u)
      show ?thesis
      proof (cases "overrideComponent e")
        case None
        from Cons.IH [of out] obtain slots' out' where
          "syncView eng h pth doc out slots = Inr (slots', out')" by auto
        with Some u None show ?thesis by simp
      next
        case oc: (Some oc)
        then have "overrideComponent (fst (e, out)) \<noteq> None" by simp
        from syncInstance_returns [OF assms this, where eng = eng and h = h and pth = pth]
        obtain e' out1 where
          inst: "syncInstance eng h pth doc (e, out) = Inr (e', out1)" by auto
        from Cons.IH [of out1] obtain slots' out' where
          "syncView eng h pth doc out1 slots = Inr (slots', out')" by auto
        with Some u oc inst show ?thesis by simp
      qed
    qed
  qed
qed

lemma updateAllPrefabInstance_returns:
  assumes "masterEntity eng handle = Some entityData"
    and "\<forall>T componentData. map_of entityData T = Some componentData \<longrightarrow> IsObject componentData"
  shows "\<exists>sceneManager'. updateAllPrefabInstance eng handle sceneManager = Inr sceneManager'"
proof -
  from masterEntity_SomeD [OF assms(1)] obtain members where
    opened: "files eng (getSourceFilePath eng handle) = Some (Some (JObject members))" and
    ent: "map_of members ''Entity'' = Some (JObject entityData)" by blast
  have "doc_value \<lparr> doc_value = JObject members, doc_parseError = False \<rparr> = JObject members"
    by simp
  from syncView_returns [OF this ent assms(2), where eng = eng and h = handle
      and pth = "getSourceFilePath eng handle" and out = "logged sceneManager"
      and slots = "registry sceneManager"] obtain slots' out' where
    "syncView eng handle (getSourceFilePath eng handle)
       \<lparr> doc_value = JObject members, doc_parseError = False \<rparr>
       (logged sceneManager) (registry sceneManager) = Inr (slots', out')" by auto
  with opened show ?thesis
    by (simp add: updateAllPrefabInstance_def Let_def loadPrefab_parsed IsNull_def)
qed

subsection \<open>The example scene, synchronized\<close>


lemmas example_defs =
  example_engine_def example_scene_def example_scene_synced_def example_X_def example_X_synced_def
  example_Y_def example_Z_def example_ledger_def example_types_def example_master_def
  example_overrideGet_def example_overrideSet_def


lemmas sync_defs =
  updateAllPrefabInstance_def loadPrefab_def ParseStream_def newDocument_def HasParseError_def
  IsNull_def IsObject_def HasMember_def operator_index_def syncInstance_def syncComponentType_def
  syncComponentData_def syncProperty_def overrideRef_def isOverridden_def hasComponent_def
  getComponent_def addComponent_def removeComponent_def component_set_value_def get_value_def
  set_value_def Let_def

lemma example_run:
  "updateAllPrefabInstance example_engine 1 example_scene = Inr example_scene_synced"
  apply (simp add: example_defs sync_defs)
  apply (rule ext)
  apply simp
  done


lemma example_broken:
  "updateAllPrefabInstance example_engine 2 example_scene =
     Inr (example_scene \<lparr> logged := [TEA_INFO ''Failed to parse prefab file: {0}'' [ArgText ''broken.prefab'']] \<rparr>)"
  by (simp add: example_defs sync_defs)


subsection \<open>The pass as a whole\<close>



lemma updateAllPrefabInstance_cases:
  assumes "updateAllPrefabInstance eng h sm = Inr sm'"
  shows "registry sm' = registry sm \<or>
         (\<exists>doc out slots' out'. syncView eng h (getSourceFilePath eng h) doc out (registry sm)
             = Inr (slots', out') \<and> registry sm' = slots')"
proof (cases "IsNull (doc_value (fst (loadPrefab (files eng) (getSourceFilePath eng h))))")
  case True
  with assms have "sm' = sm \<lparr> logged := logged sm @ snd (loadPrefab (files eng) (getSourceFilePath eng h)) \<rparr>"
    by (simp add: updateAllPrefabInstance_def Let_def)
  then show ?thesis by simp
next
  case False
  with assms show ?thesis
    by (auto simp: updateAllPrefabInstance_def Let_def split: sum.splits)
qed



text \<open>
  C2. If the master document is malformed, the pass stops before the loop over the
  view: the scene it returns is the scene it was given, with the parse failure logged.
\<close>

theorem malformed_master_aborts:
  assumes "files eng (getSourceFilePath eng handle) = Some None"
  shows "updateAllPrefabInstance eng handle sceneManager =
           Inr (sceneManager \<lparr> logged := logged sceneManager @
                  [TEA_INFO ''Failed to parse prefab file: {0}'' [ArgText (getSourceFilePath eng handle)]] \<rparr>)"
  using assms
  by (simp add: updateAllPrefabInstance_def Let_def loadPrefab_malformed IsNull_def)

theorem malformed_master_aborts_witness:
  "files example_engine (getSourceFilePath example_engine 2) = Some None \<and>
   overrideComponent example_Y = Some \<lparr> masterPrefabHandle = 2, properties = [], components = [] \<rparr> \<and>
   updateAllPrefabInstance example_engine 2 example_scene =
     Inr (example_scene \<lparr> logged :=
            [TEA_INFO ''Failed to parse prefab file: {0}'' [ArgText ''broken.prefab'']] \<rparr>)"
proof -
  have malformed: "files example_engine (getSourceFilePath example_engine 2) = Some None"
    by (simp add: example_engine_def)
  from malformed_master_aborts [OF malformed, of example_scene] malformed
  show ?thesis by (simp add: example_engine_def example_scene_def example_Y_def)
qed

text \<open>
  C9. An entity whose override component names another master than the one being
  synchronized is the same entity after a pass that returns, in the same slot.
\<close>

theorem other_instances_untouched:
  assumes run: "updateAllPrefabInstance eng handle sceneManager = Inr sceneManager'"
    and i: "i < length (registry sceneManager)"
    and slot: "registry sceneManager ! i = Some entity"
    and ov: "overrideComponent entity = Some overrideComp"
    and other: "masterPrefabHandle overrideComp \<noteq> handle"
  shows "length (registry sceneManager') = length (registry sceneManager)
       \<and> registry sceneManager' ! i = Some entity"
proof -
  from updateAllPrefabInstance_cases [OF run] consider
    (aborted) "registry sceneManager' = registry sceneManager"
    | (synced) doc out slots' out' where
        "syncView eng handle (getSourceFilePath eng handle) doc out (registry sceneManager)
           = Inr (slots', out')" "registry sceneManager' = slots'"
    by blast
  then show ?thesis
  proof cases
    case aborted
    with slot show ?thesis by simp
  next
    case synced
    from synced(1) have len: "length slots' = length (registry sceneManager)" by (rule syncView_length)
    have "slots' ! i = Some entity"
    proof (cases "uuidComponent entity")
      case None
      with slot have "(case registry sceneManager ! i of None \<Rightarrow> True
          | Some e \<Rightarrow> uuidComponent e = None \<or> overrideComponent e = None)" by simp
      with synced(1) i have "slots' ! i = registry sceneManager ! i" by (rule syncView_not_in_view)
      with slot show ?thesis by simp
    next
      case (Some u)
      from syncView_in_view [OF synced(1) i slot Some ov] obtain out0 e' out1 where
        inst: "syncInstance eng handle (getSourceFilePath eng handle) doc (entity, out0)
                 = Inr (e', out1)" and nth: "slots' ! i = Some e'" by blast
      from inst ov other have "e' = entity" by (rule syncInstance_other_handle)
      with nth show ?thesis by simp
    qed
    with len synced(2) show ?thesis by simp
  qed
qed

theorem other_instances_untouched_witness:
  "updateAllPrefabInstance example_engine 1 example_scene = Inr example_scene_synced \<and>
   2 < length (registry example_scene) \<and>
   registry example_scene ! 2 = Some example_Y \<and>
   overrideComponent example_Y = Some \<lparr> masterPrefabHandle = 2, properties = [], components = [] \<rparr> \<and>
   masterPrefabHandle \<lparr> masterPrefabHandle = 2, properties = [], components = [] \<rparr> \<noteq> 1 \<and>
   length (registry example_scene_synced) = length (registry example_scene) \<and>
   registry example_scene_synced ! 2 = Some example_Y"
proof -
  have i: "2 < length (registry example_scene)" and slot: "registry example_scene ! 2 = Some example_Y"
    by (simp_all add: example_scene_def)
  have ov: "overrideComponent example_Y
      = Some \<lparr> masterPrefabHandle = 2, properties = [], components = [] \<rparr>"
    by (simp add: example_Y_def)
  have other: "masterPrefabHandle \<lparr> masterPrefabHandle = 2, properties = [], components = [] \<rparr> \<noteq> 1"
    by simp
  from other_instances_untouched [OF example_run i slot ov other] example_run i slot ov other
  show ?thesis by simp
qed

text \<open>
  C10 as it holds. A file that cannot be opened gives a Null document and a logged
  open failure. A file that opens gives the document \<^verbatim>\<open>ParseStream\<close> left: after a failed
  parse that is still the Null document, now with its parse error set, and the failure
  is logged and not signalled otherwise. So the document returned is Null when the file
  cannot be opened, when its content is malformed, and when its content is the JSON
  value null, and in no other case.
\<close>

theorem loadPrefab_document:
  "(fs prefabPath = None \<longrightarrow>
      loadPrefab fs prefabPath =
        (newDocument, [TEA_INFO ''Failed to open prefab file: {0}'' [ArgText prefabPath]]))
 \<and> (fs prefabPath = Some None \<longrightarrow>
      loadPrefab fs prefabPath =
        (newDocument \<lparr> doc_parseError := True \<rparr>,
         [TEA_INFO ''Failed to parse prefab file: {0}'' [ArgText prefabPath]]))
 \<and> (fs prefabPath = Some (Some parsed) \<longrightarrow>
      loadPrefab fs prefabPath = (newDocument \<lparr> doc_value := parsed \<rparr>, []))
 \<and> (IsNull (doc_value (fst (loadPrefab fs prefabPath))) \<longleftrightarrow>
      fs prefabPath = None \<or> fs prefabPath = Some None \<or> fs prefabPath = Some (Some JNull))"
proof -
  have null_iff: "IsNull v \<longleftrightarrow> v = JNull" for v
    by (cases v) (simp_all add: IsNull_def)
  have "IsNull (doc_value (fst (loadPrefab fs prefabPath))) \<longleftrightarrow>
      fs prefabPath = None \<or> fs prefabPath = Some None \<or> fs prefabPath = Some (Some JNull)"
  proof (cases "fs prefabPath")
    case None
    then show ?thesis by (simp add: loadPrefab_unopened newDocument_def null_iff)
  next
    case (Some content)
    then show ?thesis
      by (cases content) (simp_all add: loadPrefab_malformed loadPrefab_parsed null_iff)
  qed
  then show ?thesis
    by (simp add: loadPrefab_unopened loadPrefab_malformed loadPrefab_parsed newDocument_def)
qed

theorem loadPrefab_document_witness:
  "files example_engine ''missing.prefab'' = None \<and>
   loadPrefab (files example_engine) ''missing.prefab'' =
     (newDocument, [TEA_INFO ''Failed to open prefab file: {0}'' [ArgText ''missing.prefab'']]) \<and>
   files example_engine ''broken.prefab'' = Some None \<and>
   loadPrefab (files example_engine) ''broken.prefab'' =
     (newDocument \<lparr> doc_parseError := True \<rparr>,
      [TEA_INFO ''Failed to parse prefab file: {0}'' [ArgText ''broken.prefab'']]) \<and>
   files example_engine ''enemy.prefab'' = Some (Some example_master) \<and>
   loadPrefab (files example_engine) ''enemy.prefab'' =
     (newDocument \<lparr> doc_value := example_master \<rparr>, []) \<and>
   \<not> IsNull (doc_value (fst (loadPrefab (files example_engine) ''enemy.prefab'')))"
proof -
  have missing: "files example_engine ''missing.prefab'' = None"
    and broken: "files example_engine ''broken.prefab'' = Some None"
    and enemy: "files example_engine ''enemy.prefab'' = Some (Some example_master)"
    by (simp_all add: example_engine_def)
  have "example_master \<noteq> JNull" by (simp add: example_master_def)
  with loadPrefab_document [of "files example_engine" "''missing.prefab''" example_master]
    loadPrefab_document [of "files example_engine" "''broken.prefab''" example_master]
    loadPrefab_document [of "files example_engine" "''enemy.prefab''" example_master]
    missing broken enemy
  show ?thesis by (simp add: IsNull_def example_master_def)
qed

text \<open>
  C10 as stated fails: the file \<^verbatim>\<open>broken.prefab\<close> opens, its content does not parse, and
  the document that \<^verbatim>\<open>loadPrefab\<close> returns is Null.
\<close>

theorem loadPrefab_null_counterexample:
  "files example_engine ''broken.prefab'' \<noteq> None \<and>
   IsNull (doc_value (fst (loadPrefab (files example_engine) ''broken.prefab'')))"
  by (simp add: example_engine_def loadPrefab_def ParseStream_def newDocument_def HasParseError_def
        IsNull_def)

subsection \<open>The rules for components and properties\<close>














section \<open>The command stack\<close>

lemma popAll_empty: "popAll cs = []"
  by (induction cs) simp_all

lemma executeCommand_eq:
  "executeCommand cmd (mgr, s) =
     (mgr \<lparr> undoStack := fst (Command_execute cmd s) # undoStack mgr, redoStack := [] \<rparr>,
      snd (Command_execute cmd s))"
  by (simp add: executeCommand_def Let_def popAll_empty)

lemma undo_Cons:
  "undoStack mgr = cmd # rest \<Longrightarrow>
   undo (mgr, s) =
     (mgr \<lparr> undoStack := rest, redoStack := fst (Command_undo cmd s) # redoStack mgr \<rparr>,
      snd (Command_undo cmd s))"
  by (simp add: undo_def Let_def)

lemma redo_Cons:
  "redoStack mgr = cmd # rest \<Longrightarrow>
   redo (mgr, s) =
     (mgr \<lparr> redoStack := rest, undoStack := fst (Command_redo cmd s) # undoStack mgr \<rparr>,
      snd (Command_redo cmd s))"
  by (simp add: redo_def Let_def)

text \<open>
  C8. \<^verbatim>\<open>undo\<close> with an empty undo stack returns the manager and the scene it was given;
  otherwise it takes the top command off the undo stack, applies its \<^verbatim>\<open>undo\<close> to the
  scene and puts the command on the redo stack. \<^verbatim>\<open>redo\<close> is the same with the stacks
  exchanged and the command's \<^verbatim>\<open>redo\<close>. Both are total: there is no error to raise.
\<close>

theorem undo_redo_stack_discipline:
  "(undoStack mgr = [] \<longrightarrow> undo (mgr, s) = (mgr, s))
 \<and> (undoStack mgr = cmd # rest \<longrightarrow>
      undo (mgr, s) =
        (mgr \<lparr> undoStack := rest, redoStack := fst (Command_undo cmd s) # redoStack mgr \<rparr>,
         snd (Command_undo cmd s)))
 \<and> (redoStack mgr = [] \<longrightarrow> redo (mgr, s) = (mgr, s))
 \<and> (redoStack mgr = cmd # rest \<longrightarrow>
      redo (mgr, s) =
        (mgr \<lparr> redoStack := rest, undoStack := fst (Command_redo cmd s) # undoStack mgr \<rparr>,
         snd (Command_redo cmd s)))"
  by (simp add: undo_Cons redo_Cons) (simp add: undo_def redo_def)

theorem undo_redo_stack_discipline_witness:
  "undoStack \<lparr> undoStack = [], redoStack = [example_move] \<rparr> = [] \<and>
   undo (\<lparr> undoStack = [], redoStack = [example_move] \<rparr>, example_stage)
     = (\<lparr> undoStack = [], redoStack = [example_move] \<rparr>, example_stage) \<and>
   redoStack \<lparr> undoStack = [], redoStack = [example_move] \<rparr> = [example_move] \<and>
   redo (\<lparr> undoStack = [], redoStack = [example_move] \<rparr>, example_stage)
     = (\<lparr> undoStack = [fst (Command_redo example_move example_stage)], redoStack = [] \<rparr>,
        snd (Command_redo example_move example_stage)) \<and>
   redoStack \<lparr> undoStack = [example_move], redoStack = [] \<rparr> = [] \<and>
   redo (\<lparr> undoStack = [example_move], redoStack = [] \<rparr>, example_stage)
     = (\<lparr> undoStack = [example_move], redoStack = [] \<rparr>, example_stage) \<and>
   undoStack \<lparr> undoStack = [example_move], redoStack = [] \<rparr> = [example_move] \<and>
   undo (\<lparr> undoStack = [example_move], redoStack = [] \<rparr>, example_stage)
     = (\<lparr> undoStack = [], redoStack = [fst (Command_undo example_move example_stage)] \<rparr>,
        snd (Command_undo example_move example_stage))"
  using undo_redo_stack_discipline
          [of "\<lparr> undoStack = [], redoStack = [example_move] \<rparr>" example_stage example_move "[]"]
        undo_redo_stack_discipline
          [of "\<lparr> undoStack = [example_move], redoStack = [] \<rparr>" example_stage example_move "[]"]
  by simp

text \<open>
  C3. \<^verbatim>\<open>executeCommand\<close> applies the command's \<^verbatim>\<open>execute\<close> to the scene once, puts the
  executed command on top of the undo stack and leaves the redo stack empty, whatever
  the stacks held. So after submitting \<open>a\<close>, undoing and submitting \<open>b\<close>, the redo stack is
  empty and \<open>b\<close> is on top of the undo stack where \<open>a\<close> was; the next \<^verbatim>\<open>undo\<close> applies the
  \<^verbatim>\<open>undo\<close> of \<open>b\<close>, and the undone \<open>b\<close> is then the only command to redo.
\<close>

theorem executeCommand_linear_history:
  "executeCommand cmd (mgr, s) =
     (mgr \<lparr> undoStack := fst (Command_execute cmd s) # undoStack mgr, redoStack := [] \<rparr>,
      snd (Command_execute cmd s))
 \<and> (let st1 = executeCommand a (mgr, s);
         st2 = undo st1;
         st3 = executeCommand b st2;
         b' = fst (Command_execute b (snd st2));
         st4 = undo st3
     in snd st1 = snd (Command_execute a s)
      \<and> snd st2 = snd (Command_undo (fst (Command_execute a s)) (snd st1))
      \<and> redoStack (fst st3) = []
      \<and> undoStack (fst st3) = b' # undoStack mgr
      \<and> snd st4 = snd (Command_undo b' (snd st3))
      \<and> undoStack (fst st4) = undoStack mgr
      \<and> redoStack (fst st4) = [fst (Command_undo b' (snd st3))])"
  by (simp add: executeCommand_eq undo_Cons Let_def)

subsection \<open>Creating, destroying and recreating an entity\<close>


lemma registry_tea_log [simp]: "registry (tea_log entry s) = registry s"
  by (simp add: tea_log_def)

lemma uuidsMinted_tea_log [simp]: "uuidsMinted (tea_log entry s) = uuidsMinted s"
  by (simp add: tea_log_def)

lemma liveEntities_registry: "registry s = registry s' \<Longrightarrow> liveEntities s = liveEntities s'"
  by (simp add: liveEntities_def)

lemma createEntity_result:
  "fst (createEntity s) = Some (length (registry s))"
  "registry (snd (createEntity s)) = registry s @ [Some (newEntity (uuidSource s (uuidsMinted s)))]"
  "uuidsMinted (snd (createEntity s)) = Suc (uuidsMinted s)"
  by (simp_all add: createEntity_def createEntityWithUUID_def)

lemma getUUID_createEntity:
  "getUUID (snd (createEntity s)) (Some (length (registry s))) = Some (uuidSource s (uuidsMinted s))"
  by (simp add: getUUID_def resolveEntity_def createEntity_result newEntity_def)

lemma CreateEntityCommand_execute_result:
  "fst (CreateEntityCommand_execute e u s)
     = CreateEntityCommand (Some (length (registry s))) (uuidSource s (uuidsMinted s))"
  "registry (snd (CreateEntityCommand_execute e u s))
     = registry s @ [Some (newEntity (uuidSource s (uuidsMinted s)))]"
  "uuidsMinted (snd (CreateEntityCommand_execute e u s)) = Suc (uuidsMinted s)"
  by (simp_all add: CreateEntityCommand_execute_def Let_def getUUID_createEntity createEntity_result)

lemma CreateEntityCommand_undo_result:
  "fst (CreateEntityCommand_undo e u s) = CreateEntityCommand e u"
  "registry (snd (CreateEntityCommand_undo (Some h) u s)) = (registry s) [h := None]"
  "uuidsMinted (snd (CreateEntityCommand_undo e u s)) = uuidsMinted s"
  by (simp_all add: CreateEntityCommand_undo_def destroyEntity_def split: option.splits)

lemma CreateEntityCommand_redo_result:
  "fst (CreateEntityCommand_redo e u s) = CreateEntityCommand (Some (length (registry s))) u"
  "registry (snd (CreateEntityCommand_redo e u s)) = registry s @ [Some (newEntity u)]"
  "uuidsMinted (snd (CreateEntityCommand_redo e u s)) = uuidsMinted s"
  by (simp_all add: CreateEntityCommand_redo_def createEntityWithUUID_def Let_def)

lemma getUUID_last:
  "registry s = slots @ [Some (newEntity u)] \<Longrightarrow> getUUID s (Some (length slots)) = Some u"
  by (simp add: getUUID_def resolveEntity_def newEntity_def)

lemma getUUID_destroyed:
  "registry s = slots @ [None] \<Longrightarrow> getUUID s (Some (length slots)) = None"
  by (simp add: getUUID_def resolveEntity_def)

lemma liveEntities_snoc:
  "registry s = slots @ [slot] \<Longrightarrow>
   liveEntities s = List.map_filter (\<lambda>slot. slot) slots @ (case slot of None \<Rightarrow> [] | Some d \<Rightarrow> [d])"
  by (simp add: liveEntities_def map_filter_def split: option.splits)

text \<open>
  C7. Submitting a \<^verbatim>\<open>CreateEntityCommand\<close> creates an entity in a new slot with the next
  identifier of the generator. After \<^verbatim>\<open>undo\<close> that entity is gone. After \<^verbatim>\<open>redo\<close> the
  command holds a new entity whose identifier is the one of the first creation; the
  generator has produced no further identifier, and the live entities are those after
  the first creation.
\<close>

theorem create_undo_redo_keeps_uuid:
  "let created = executeCommand (CreateEntityCommand m_entity m_uuid)
                   (mgr :: 'a CommandManager, s :: 'a variant scene);
       destroyed = undo created;
       recreated = redo destroyed;
       minted = uuidSource s (uuidsMinted s);
       h = length (registry s)
   in undoStack (fst created) = CreateEntityCommand (Some h) minted # undoStack mgr
    \<and> getUUID (snd created) (Some h) = Some minted
    \<and> getUUID (snd destroyed) (Some h) = None
    \<and> undoStack (fst recreated) = CreateEntityCommand (Some (Suc h)) minted # undoStack mgr
    \<and> getUUID (snd recreated) (Some (Suc h)) = Some minted
    \<and> uuidsMinted (snd recreated) = uuidsMinted (snd created)
    \<and> liveEntities (snd recreated) = liveEntities (snd created)"
proof -
  define minted where "minted = uuidSource s (uuidsMinted s)"
  define h where "h = length (registry s)"
  define c1 :: "'a command" where "c1 = CreateEntityCommand (Some h) minted"
  define s1 where "s1 = snd (CreateEntityCommand_execute m_entity m_uuid s)"
  define s2 where "s2 = snd (CreateEntityCommand_undo (Some h) minted s1)"
  define s3 where "s3 = snd (CreateEntityCommand_redo (Some h) minted s2)"
  have created: "executeCommand (CreateEntityCommand m_entity m_uuid) (mgr, s)
      = (mgr \<lparr> undoStack := c1 # undoStack mgr, redoStack := [] \<rparr>, s1)"
    by (simp add: executeCommand_eq CreateEntityCommand_execute_result c1_def s1_def h_def minted_def)
  have r1: "registry s1 = registry s @ [Some (newEntity minted)]"
    by (simp add: s1_def CreateEntityCommand_execute_result minted_def)
  have m1: "uuidsMinted s1 = Suc (uuidsMinted s)"
    by (simp add: s1_def CreateEntityCommand_execute_result)
  have destroyed: "undo (mgr \<lparr> undoStack := c1 # undoStack mgr, redoStack := [] \<rparr>, s1)
      = (mgr \<lparr> undoStack := undoStack mgr, redoStack := [c1] \<rparr>, s2)"
    by (simp add: undo_Cons c1_def s2_def CreateEntityCommand_undo_result)
  have r2: "registry s2 = registry s @ [None]"
    by (simp add: s2_def CreateEntityCommand_undo_result r1 h_def)
  have m2: "uuidsMinted s2 = Suc (uuidsMinted s)"
    by (simp add: s2_def CreateEntityCommand_undo_result m1)
  have recreated: "redo (mgr \<lparr> undoStack := undoStack mgr, redoStack := [c1] \<rparr>, s2)
      = (mgr \<lparr> redoStack := [], undoStack := CreateEntityCommand (Some (Suc h)) minted # undoStack mgr \<rparr>,
         s3)"
    by (simp add: redo_Cons c1_def s3_def CreateEntityCommand_redo_result r2 h_def)
  have r3: "registry s3 = (registry s @ [None]) @ [Some (newEntity minted)]"
    by (simp add: s3_def CreateEntityCommand_redo_result r2)
  have m3: "uuidsMinted s3 = Suc (uuidsMinted s)"
    by (simp add: s3_def CreateEntityCommand_redo_result m2)
  have u1: "getUUID s1 (Some h) = Some minted"
    unfolding h_def using r1 by (rule getUUID_last)
  have u2: "getUUID s2 (Some h) = None"
    unfolding h_def using r2 by (rule getUUID_destroyed)
  have "getUUID s3 (Some (length (registry s @ [None]))) = Some minted"
    using r3 by (rule getUUID_last)
  then have u3: "getUUID s3 (Some (Suc h))= Some minted" by (simp add: h_def)
  have live: "liveEntities s3 = liveEntities s1"
    by (simp add: liveEntities_snoc [OF r3] liveEntities_snoc [OF r1] map_filter_def)
  show ?thesis
    unfolding Let_def created destroyed recreated
    using u1 u2 u3 m1 m3 live
    by (simp add: c1_def h_def minted_def)
qed

subsection \<open>The transform command on the registry\<close>

lemma applyTransform_registry:
  "registry (applyTransform e p r sc s) =
     (case e of
        None \<Rightarrow> registry s
      | Some h \<Rightarrow>
          if h < length (registry s)
          then (case registry s ! h of
                  None \<Rightarrow> registry s
                | Some d \<Rightarrow>
                    (case transformComponent d of
                       None \<Rightarrow> registry s
                     | Some t \<Rightarrow>
                         (registry s) [h := Some (d \<lparr> transformComponent :=
                            Some (t \<lparr> position := p, rotation := r, scale := sc \<rparr>) \<rparr>)]))
          else registry s)"
  by (simp add: applyTransform_def resolveEntity_def split: option.splits)

lemma applyTransform_cong:
  "registry s = registry s' \<Longrightarrow>
   registry (applyTransform e p r sc s) = registry (applyTransform e p r sc s')"
  by (simp add: applyTransform_registry split: option.splits)

lemma applyTransform_twice:
  "registry (applyTransform e p r sc (applyTransform e p' r' sc' s))
     = registry (applyTransform e p r sc s)"
  by (simp add: applyTransform_registry split: option.splits)

lemma transform_same: "transformComponent d = Some t \<Longrightarrow> d \<lparr> transformComponent := Some t \<rparr> = d"
  by (cases d) simp

lemma applyTransform_current:
  assumes "storedStateCurrent (TransformEntityCommand e oldPos oldRot oldScale newPos newRot newScale) s"
  shows "registry (applyTransform e oldPos oldRot oldScale s) = registry s"
proof (cases e)
  case None
  then show ?thesis by (simp add: applyTransform_registry)
next
  case (Some h)
  show ?thesis
  proof (cases "h < length (registry s)")
    case False
    with Some show ?thesis by (simp add: applyTransform_registry)
  next
    case True
    show ?thesis
    proof (cases "registry s ! h")
      case None
      with Some True show ?thesis by (simp add: applyTransform_registry)
    next
      case slot: (Some d)
      show ?thesis
      proof (cases "transformComponent d")
        case None
        with Some True slot show ?thesis by (simp add: applyTransform_registry)
      next
        case t: (Some t)
        from assms Some True slot t have
          "position t = oldPos" "rotation t = oldRot" "scale t = oldScale"
          by (simp_all add: resolveEntity_def)
        then have "t \<lparr> position := oldPos, rotation := oldRot, scale := oldScale \<rparr> = t" by auto
        with t have "d \<lparr> transformComponent :=
            Some (t \<lparr> position := oldPos, rotation := oldRot, scale := oldScale \<rparr>) \<rparr> = d"
          by (simp add: transform_same)
        with Some True slot t show ?thesis
          by (simp add: applyTransform_registry list_update_same_conv)
      qed
    qed
  qed
qed

lemma Transform_registry:
  "registry (snd (TransformEntityCommand_execute e oldPos oldRot oldScale newPos newRot newScale s))
     = registry (applyTransform e newPos newRot newScale s)"
  "registry (snd (TransformEntityCommand_undo e oldPos oldRot oldScale newPos newRot newScale s))
     = registry (applyTransform e oldPos oldRot oldScale s)"
  "registry (snd (TransformEntityCommand_redo e oldPos oldRot oldScale newPos newRot newScale s))
     = registry (applyTransform e newPos newRot newScale s)"
  "fst (TransformEntityCommand_execute e oldPos oldRot oldScale newPos newRot newScale s)
     = TransformEntityCommand e oldPos oldRot oldScale newPos newRot newScale"
  "fst (TransformEntityCommand_undo e oldPos oldRot oldScale newPos newRot newScale s)
     = TransformEntityCommand e oldPos oldRot oldScale newPos newRot newScale"
  "fst (TransformEntityCommand_redo e oldPos oldRot oldScale newPos newRot newScale s)
     = TransformEntityCommand e oldPos oldRot oldScale newPos newRot newScale"
  by (simp_all add: TransformEntityCommand_execute_def TransformEntityCommand_undo_def
        TransformEntityCommand_redo_def Let_def)

lemma Transform_inverse:
  assumes c_def: "c = TransformEntityCommand e oldPos oldRot oldScale newPos newRot newScale"
    and s1_def: "s1 = snd (Command_execute c s)"
    and s2_def: "s2 = snd (Command_undo c s1)"
    and s3_def: "s3 = snd (Command_redo c s2)"
  shows "fst (Command_execute c s) = c" "fst (Command_undo c s1) = c"
    and "storedStateCurrent c s \<Longrightarrow> registry s2 = registry s"
    and "registry s3 = registry s1"
proof -
  show "fst (Command_execute c s) = c" "fst (Command_undo c s1) = c"
    by (simp_all add: c_def Transform_registry)
  have r1: "registry s1 = registry (applyTransform e newPos newRot newScale s)"
    by (simp add: s1_def c_def Transform_registry)
  have "registry s2 = registry (applyTransform e oldPos oldRot oldScale s1)"
    by (simp add: s2_def c_def Transform_registry)
  also have "\<dots> = registry (applyTransform e oldPos oldRot oldScale
                        (applyTransform e newPos newRot newScale s))"
    using r1 by (rule applyTransform_cong)
  also have "\<dots> = registry (applyTransform e oldPos oldRot oldScale s)"
    by (rule applyTransform_twice)
  finally have r2: "registry s2 = registry (applyTransform e oldPos oldRot oldScale s)" .
  show "registry s2 = registry s" if "storedStateCurrent c s"
    using that r2 by (simp add: c_def applyTransform_current)
  have "registry s3 = registry (applyTransform e newPos newRot newScale s2)"
    by (simp add: s3_def c_def Transform_registry)
  also have "\<dots> = registry (applyTransform e newPos newRot newScale
                        (applyTransform e oldPos oldRot oldScale s))"
    using r2 by (rule applyTransform_cong)
  also have "\<dots> = registry (applyTransform e newPos newRot newScale s)"
    by (rule applyTransform_twice)
  finally show "registry s3 = registry s1" using r1 by simp
qed

subsection \<open>The material command on the registry\<close>

lemma instance_set_value_registry:
  "registry (snd (instance_set_value p ci v s)) =
     (if fst ci < length (registry s)
      then (case registry s ! fst ci of
              None \<Rightarrow> registry s
            | Some d \<Rightarrow>
                (case reflected d (snd ci) of
                   None \<Rightarrow> registry s
                 | Some c \<Rightarrow>
                     if prop_readonly p then registry s
                     else (registry s) [fst ci := Some (d \<lparr> reflected :=
                            (reflected d) (snd ci \<mapsto> c (prop_name p := v)) \<rparr>)]))
      else registry s)"
  by (simp add: instance_set_value_def resolveEntity_def set_value_def Let_def split: option.splits)

lemma instance_set_value_cong:
  "registry s = registry s' \<Longrightarrow>
   registry (snd (instance_set_value p ci v s)) = registry (snd (instance_set_value p ci v s'))"
  by (simp add: instance_set_value_registry split: option.splits)

lemma instance_set_value_twice:
  "registry (snd (instance_set_value p ci v (snd (instance_set_value p ci v' s))))
     = registry (snd (instance_set_value p ci v s))"
  by (simp add: instance_set_value_registry split: option.splits)

lemma reflected_same:
  "reflected d T = Some c \<Longrightarrow> d \<lparr> reflected := (reflected d) (T \<mapsto> c) \<rparr> = d"
  by (cases d) (simp add: map_upd_triv)

lemma instance_set_value_current:
  assumes "\<And>c. componentAt s (fst ci) (snd ci) = Some c \<Longrightarrow> prop_readonly p \<or> c (prop_name p) = v"
  shows "registry (snd (instance_set_value p ci v s)) = registry s"
proof (cases "fst ci < length (registry s)")
  case False
  then show ?thesis by (simp add: instance_set_value_registry)
next
  case True
  show ?thesis
  proof (cases "registry s ! fst ci")
    case None
    with True show ?thesis by (simp add: instance_set_value_registry)
  next
    case slot: (Some d)
    show ?thesis
    proof (cases "reflected d (snd ci)")
      case None
      with True slot show ?thesis by (simp add: instance_set_value_registry)
    next
      case comp: (Some c')
      show ?thesis
      proof (cases "prop_readonly p")
        case True
        with \<open>fst ci < length (registry s)\<close> slot comp show ?thesis
          by (simp add: instance_set_value_registry)
      next
        case False
        from True slot comp have "componentAt s (fst ci) (snd ci) = Some c'"
          by (simp add: componentAt_def resolveEntity_def)
        from assms [OF this] False have "c' (prop_name p) = v" by simp
        then have "c' (prop_name p := v) = c'" by auto
        with comp have "d \<lparr> reflected := (reflected d) (snd ci \<mapsto> c' (prop_name p := v)) \<rparr> = d"
          by (simp add: reflected_same)
        with True slot comp False show ?thesis
          by (simp add: instance_set_value_registry list_update_same_conv)
      qed
    qed
  qed
qed


lemma applyValue_not_sequential:
  "create_sequential_view pv = None \<Longrightarrow>
   fst (applyValue ci p pv i val s) = pv \<and> registry (snd (applyValue ci p pv i val s)) = registry s"
  by (simp add: applyValue_def)

lemma applyValue_out_of_range:
  "\<not> i < length elems \<Longrightarrow>
   fst (applyValue ci p (Sequential elems) i val s) = Sequential elems \<and>
   registry (snd (applyValue ci p (Sequential elems) i val s)) = registry s"
  by (simp add: applyValue_def create_sequential_view_def seq_set_value_def)

lemma applyValue_write:
  "i < length elems \<Longrightarrow>
   fst (applyValue ci p (Sequential elems) i val s) = Sequential (elems [i := val]) \<and>
   registry (snd (applyValue ci p (Sequential elems) i val s))
     = registry (snd (instance_set_value p ci (Sequential (elems [i := val])) s))"
  by (simp add: applyValue_def create_sequential_view_def seq_set_value_def Let_def)

lemma Material_results:
  "fst (Command_execute (ChangeMaterialInstanceCommand ci p pv i ov nv) s) =
     ChangeMaterialInstanceCommand ci p (fst (applyValue ci p pv i nv s)) i ov nv"
  "registry (snd (Command_execute (ChangeMaterialInstanceCommand ci p pv i ov nv) s)) =
     registry (snd (applyValue ci p pv i nv s))"
  "fst (Command_undo (ChangeMaterialInstanceCommand ci p pv i ov nv) s) =
     ChangeMaterialInstanceCommand ci p (fst (applyValue ci p pv i ov s)) i ov nv"
  "registry (snd (Command_undo (ChangeMaterialInstanceCommand ci p pv i ov nv) s)) =
     registry (snd (applyValue ci p pv i ov s))"
  "fst (Command_redo (ChangeMaterialInstanceCommand ci p pv i ov nv) s) =
     ChangeMaterialInstanceCommand ci p (fst (applyValue ci p pv i nv s)) i ov nv"
  "registry (snd (Command_redo (ChangeMaterialInstanceCommand ci p pv i ov nv) s)) =
     registry (snd (applyValue ci p pv i nv s))"
  by (simp_all add: ChangeMaterialInstanceCommand_execute_def ChangeMaterialInstanceCommand_undo_def
        ChangeMaterialInstanceCommand_redo_def Let_def)

lemma Material_untouched:
  assumes c: "c = ChangeMaterialInstanceCommand ci p pv i ov nv"
    and e1: "executed = Command_execute c s"
    and e2: "undone = Command_undo (fst executed) (snd executed)"
    and e3: "redone = Command_redo (fst undone) (snd undone)"
    and keeps: "\<And>val s'. fst (applyValue ci p pv i val s') = pv"
    and frame: "\<And>val s'. registry (snd (applyValue ci p pv i val s')) = registry s'"
  shows "registry (snd undone) = registry s" and "registry (snd redone) = registry (snd executed)"
proof -
  have x1: "fst executed = c" and r1: "registry (snd executed) = registry s"
    unfolding e1 c by (simp_all only: Material_results keeps frame)
  have x2: "fst undone = c" and r2: "registry (snd undone) = registry (snd executed)"
    unfolding e2 x1 unfolding c by (simp_all only: Material_results keeps frame)
  have r3: "registry (snd redone) = registry (snd undone)"
    unfolding e3 x2 unfolding c by (simp only: Material_results keeps frame)
  from r1 r2 show "registry (snd undone) = registry s" by simp
  from r2 r3 show "registry (snd redone) = registry (snd executed)" by simp
qed

lemma applyValue_cong:
  assumes same: "registry s = registry s'"
  shows "registry (snd (applyValue ci p pv i val s)) = registry (snd (applyValue ci p pv i val s'))"
proof (cases pv)
  case (Plain other)
  with same show ?thesis
    by (simp add: applyValue_not_sequential create_sequential_view_def)
next
  case (Sequential elems)
  show ?thesis
  proof (cases "i < length elems")
    case False
    with same Sequential show ?thesis by (simp add: applyValue_out_of_range)
  next
    case True
    from same have "registry (snd (instance_set_value p ci (Sequential (elems [i := val])) s))
        = registry (snd (instance_set_value p ci (Sequential (elems [i := val])) s'))"
      by (rule instance_set_value_cong)
    with True Sequential show ?thesis by (simp add: applyValue_write)
  qed
qed

lemma Material_inverse:
  assumes c: "c = ChangeMaterialInstanceCommand ci p pv i ov nv"
    and e1: "executed = Command_execute c s"
    and e2: "undone = Command_undo (fst executed) (snd executed)"
    and e3: "redone = Command_redo (fst undone) (snd undone)"
  shows "storedStateCurrent c s \<Longrightarrow> registry (snd undone) = registry s"
    and "registry (snd redone) = registry (snd executed)"
proof -
  consider (silent) "create_sequential_view pv = None"
    | (outside) elems where "pv = Sequential elems" "\<not> i < length elems"
    | (inside) elems where "pv = Sequential elems" "i < length elems"
    by (cases pv) (auto simp: create_sequential_view_def)
  then have "(storedStateCurrent c s \<longrightarrow> registry (snd undone) = registry s)
      \<and> registry (snd redone) = registry (snd executed)"
  proof cases
    case silent
    then have "fst (applyValue ci p pv i val s') = pv"
      and "registry (snd (applyValue ci p pv i val s')) = registry s'" for val s'
      by (simp_all add: applyValue_not_sequential)
    with Material_untouched [OF c e1 e2 e3] show ?thesis by simp
  next
    case outside
    then have "fst (applyValue ci p pv i val s') = pv"
      and "registry (snd (applyValue ci p pv i val s')) = registry s'" for val s'
      by (simp_all add: applyValue_out_of_range)
    with Material_untouched [OF c e1 e2 e3] show ?thesis by simp
  next
    case inside
    let ?new = "Sequential (elems [i := nv]) :: 'a variant"
    let ?old = "Sequential (elems [i := ov]) :: 'a variant"
    have x1: "fst executed = ChangeMaterialInstanceCommand ci p ?new i ov nv"
      and r1: "registry (snd executed) = registry (snd (instance_set_value p ci ?new s))"
      unfolding e1 c using inside by (simp_all only: Material_results applyValue_write)
    have len1: "i < length (elems [i := nv])" using inside by simp
    have x2: "fst undone = ChangeMaterialInstanceCommand ci p ?old i ov nv"
      unfolding e2 x1 using applyValue_write [OF len1, of ci p ov "snd executed"]
      by (simp only: Material_results list_update_overwrite)
    have "registry (snd undone)
        = registry (snd (instance_set_value p ci ?old (snd executed)))"
      unfolding e2 x1 using applyValue_write [OF len1, of ci p ov "snd executed"]
      by (simp only: Material_results list_update_overwrite)
    also have "\<dots> = registry (snd (instance_set_value p ci ?old (snd (instance_set_value p ci ?new s))))"
      using r1 by (rule instance_set_value_cong)
    also have "\<dots> = registry (snd (instance_set_value p ci ?old s))"
      by (rule instance_set_value_twice)
    finally have r2: "registry (snd undone) = registry (snd (instance_set_value p ci ?old s))" .
    have len2: "i < length (elems [i := ov])" using inside by simp
    have "registry (snd redone)
        = registry (snd (instance_set_value p ci ?new (snd undone)))"
      unfolding e3 x2 using applyValue_write [OF len2, of ci p nv "snd undone"]
      by (simp only: Material_results list_update_overwrite)
    also have "\<dots> = registry (snd (instance_set_value p ci ?new (snd (instance_set_value p ci ?old s))))"
      using r2 by (rule instance_set_value_cong)
    also have "\<dots> = registry (snd (instance_set_value p ci ?new s))"
      by (rule instance_set_value_twice)
    finally have r3: "registry (snd redone) = registry (snd executed)" using r1 by simp
    have "registry (snd undone) = registry s" if "storedStateCurrent c s"
    proof -
      have "prop_readonly p \<or> comp (prop_name p) = ?old"
        if "componentAt s (fst ci) (snd ci) = Some comp" for comp
        using \<open>storedStateCurrent c s\<close> that inside
        by (auto simp: c create_sequential_view_def)
      then have "registry (snd (instance_set_value p ci ?old s)) = registry s"
        by (rule instance_set_value_current)
      with r2 show ?thesis by simp
    qed
    with r3 show ?thesis by simp
  qed
  then show "storedStateCurrent c s \<Longrightarrow> registry (snd undone) = registry s"
    and "registry (snd redone) = registry (snd executed)" by simp_all
qed

lemma Create_inverse:
  assumes c: "c = CreateEntityCommand e u"
    and e1: "executed = Command_execute c s"
    and e2: "undone = Command_undo (fst executed) (snd executed)"
    and e3: "redone = Command_redo (fst undone) (snd undone)"
  shows "liveEntities (snd undone) = liveEntities s"
    and "liveEntities (snd redone) = liveEntities (snd executed)"
proof -
  let ?minted = "uuidSource s (uuidsMinted s)"
  have x1: "fst executed = CreateEntityCommand (Some (length (registry s))) ?minted"
    and r1: "registry (snd executed) = registry s @ [Some (newEntity ?minted)]"
    by (simp_all add: c e1 CreateEntityCommand_execute_result)
  have x2: "fst undone = CreateEntityCommand (Some (length (registry s))) ?minted"
    and r2: "registry (snd undone) = registry s @ [None]"
    by (simp_all add: e2 x1 r1 CreateEntityCommand_undo_result)
  have r3: "registry (snd redone) = (registry s @ [None]) @ [Some (newEntity ?minted)]"
    by (simp add: e3 x2 r2 CreateEntityCommand_redo_result)
  show "liveEntities (snd undone) = liveEntities s"
    by (simp add: liveEntities_snoc [OF r2]) (simp add: liveEntities_def)
  show "liveEntities (snd redone) = liveEntities (snd executed)"
    by (simp add: liveEntities_snoc [OF r3] liveEntities_snoc [OF r1] map_filter_def)
qed

subsection \<open>Undo after execute, redo after undo\<close>


text \<open>
  C4 as it holds. For every command and every scene, \<^verbatim>\<open>redo\<close> after \<^verbatim>\<open>undo\<close> after
  \<^verbatim>\<open>execute\<close> leaves the live entities that \<^verbatim>\<open>execute\<close> left; and \<^verbatim>\<open>undo\<close> after \<^verbatim>\<open>execute\<close>
  leaves the live entities of the scene it started from, provided the old state the
  command stores is the state of its target in that scene.
\<close>

theorem undo_redo_inverse:
  "let executed = Command_execute c S;
       undone = Command_undo (fst executed) (snd executed);
       redone = Command_redo (fst undone) (snd undone)
   in (storedStateCurrent c S \<longrightarrow> liveEntities (snd undone) = liveEntities S)
    \<and> liveEntities (snd redone) = liveEntities (snd executed)"
proof -
  define executed where "executed = Command_execute c S"
  define undone where "undone = Command_undo (fst executed) (snd executed)"
  define redone where "redone = Command_redo (fst undone) (snd undone)"
  have "(storedStateCurrent c S \<longrightarrow> liveEntities (snd undone) = liveEntities S)
      \<and> liveEntities (snd redone) = liveEntities (snd executed)"
  proof (cases c)
    case (CreateEntityCommand e u)
    from Create_inverse [OF this executed_def undone_def redone_def] show ?thesis by simp
  next
    case (TransformEntityCommand e oldPos oldRot oldScale newPos newRot newScale)
    note inv = Transform_inverse [OF this refl refl refl, of S]
    from inv(1) have x1: "fst executed = c" by (simp add: executed_def)
    from inv(2) x1 have x2: "fst undone = c" by (simp add: undone_def executed_def)
    from inv(3) x1 have "storedStateCurrent c S \<Longrightarrow> registry (snd undone) = registry S"
      by (simp add: undone_def executed_def)
    moreover from inv(4) x1 x2 have "registry (snd redone) = registry (snd executed)"
      by (simp add: redone_def undone_def executed_def)
    ultimately show ?thesis by (auto intro: liveEntities_registry)
  next
    case (ChangeMaterialInstanceCommand ci p pv i ov nv)
    from Material_inverse [OF this executed_def undone_def redone_def]
    show ?thesis by (auto intro: liveEntities_registry)
  qed
  then show ?thesis by (simp add: Let_def executed_def undone_def redone_def)
qed

lemmas stage_defs =
  example_stage_def example_move_def example_stale_move_def example_material_def

lemmas command_defs =
  TransformEntityCommand_execute_def TransformEntityCommand_undo_def TransformEntityCommand_redo_def
  ChangeMaterialInstanceCommand_execute_def ChangeMaterialInstanceCommand_undo_def
  ChangeMaterialInstanceCommand_redo_def applyTransform_def applyValue_def instance_set_value_def
  create_sequential_view_def seq_set_value_def set_value_def resolveEntity_def componentAt_def
  getUUID_def transform_log_args_def tea_log_def liveEntities_def map_filter_def
  Let_def

theorem undo_redo_inverse_witness:
  "storedStateCurrent example_move example_stage \<and>
   liveEntities (snd (Command_execute example_move example_stage)) \<noteq> liveEntities example_stage \<and>
   liveEntities (snd (Command_undo (fst (Command_execute example_move example_stage))
                        (snd (Command_execute example_move example_stage))))
     = liveEntities example_stage \<and>
   storedStateCurrent example_material example_stage \<and>
   liveEntities (snd (Command_execute example_material example_stage)) \<noteq> liveEntities example_stage \<and>
   liveEntities (snd (Command_undo (fst (Command_execute example_material example_stage))
                        (snd (Command_execute example_material example_stage))))
     = liveEntities example_stage"
proof -
  have move: "storedStateCurrent example_move example_stage"
    by (simp add: stage_defs resolveEntity_def)
  have material: "storedStateCurrent example_material example_stage"
    by (simp add: stage_defs command_defs)
  have moved: "liveEntities (snd (Command_execute example_move example_stage))
      \<noteq> liveEntities example_stage"
    by (simp add: stage_defs command_defs)
  have changed: "liveEntities (snd (Command_execute example_material example_stage))
      \<noteq> liveEntities example_stage"
    by (simp add: stage_defs command_defs fun_eq_iff)
  from undo_redo_inverse [of example_move example_stage]
    undo_redo_inverse [of example_material example_stage]
    move material moved changed
  show ?thesis by (simp add: Let_def)
qed

text \<open>
  C4 as stated fails. The stale transform command stores the old position (5, 5, 5)
  for an entity that stands at the origin: after \<^verbatim>\<open>execute\<close> and \<^verbatim>\<open>undo\<close> the entity
  stands at (5, 5, 5).
\<close>

theorem stale_command_counterexample:
  "map transformComponent (liveEntities example_stage) =
     [Some \<lparr> position = \<lparr> vec_x = 0, vec_y = 0, vec_z = 0 \<rparr>,
             rotation = \<lparr> vec_x = 0, vec_y = 0, vec_z = 0 \<rparr>,
             scale = \<lparr> vec_x = 1, vec_y = 1, vec_z = 1 \<rparr> \<rparr>] \<and>
   map transformComponent
     (liveEntities (snd (Command_undo (fst (Command_execute example_stale_move example_stage))
                           (snd (Command_execute example_stale_move example_stage))))) =
     [Some \<lparr> position = \<lparr> vec_x = 5, vec_y = 5, vec_z = 5 \<rparr>,
             rotation = \<lparr> vec_x = 0, vec_y = 0, vec_z = 0 \<rparr>,
             scale = \<lparr> vec_x = 1, vec_y = 1, vec_z = 1 \<rparr> \<rparr>] \<and>
   liveEntities (snd (Command_undo (fst (Command_execute example_stale_move example_stage))
                        (snd (Command_execute example_stale_move example_stage))))
     \<noteq> liveEntities example_stage"
  by (simp add: stage_defs command_defs)

end
